theory Spec2Isabelle
  imports Complex_Main
begin

section \<open>Values and strings\<close>

text \<open>
  The route handler of \<^verbatim>\<open>src/app/api/extract/api-endpoint/route.ts\<close> works on untyped
  JavaScript values (\<^verbatim>\<open>any\<close>). The values that reach it are the ones a response body
  decodes to, so the model uses the JSON values. An object is an association list in
  insertion order with own properties only; numbers are integers.
\<close>

datatype json =
    JNull
  | JBool bool
  | JNum int
  | JStr string
  | JArr "json list"
  | JObj "(string \<times> json) list"

text \<open>JavaScript truthiness, as used by \<^verbatim>\<open>if (x)\<close>, \<^verbatim>\<open>x || d\<close> and \<^verbatim>\<open>x && y\<close>.\<close>

fun truthy :: "json \<Rightarrow> bool" where
  "truthy JNull = False"
| "truthy (JBool b) = b"
| "truthy (JNum n) = (n \<noteq> 0)"
| "truthy (JStr s) = (s \<noteq> [])"
| "truthy (JArr xs) = True"
| "truthy (JObj kvs) = True"

text \<open>\<^verbatim>\<open>typeof x === 'object'\<close>: true of objects, arrays and \<^verbatim>\<open>null\<close>.\<close>

fun typeofObject :: "json \<Rightarrow> bool" where
  "typeofObject JNull = True"
| "typeofObject (JArr xs) = True"
| "typeofObject (JObj kvs) = True"
| "typeofObject v = False"

text \<open>
  The own property \<open>k\<close> of an object, and the new value of an own property (\<open>objSet\<close> is
  applied to a name that the object has; a name that it lacks would go to the end).
\<close>

fun objGet :: "('k \<times> 'v) list \<Rightarrow> 'k \<Rightarrow> 'v option" where
  "objGet [] k = None"
| "objGet ((k', v) # kvs) k = (if k' = k then Some v else objGet kvs k)"

fun objSet :: "'k \<Rightarrow> 'v \<Rightarrow> ('k \<times> 'v) list \<Rightarrow> ('k \<times> 'v) list" where
  "objSet k v [] = [(k, v)]"
| "objSet k v ((k', v') # kvs) = (if k' = k then (k, v) # kvs else (k', v') # objSet k v kvs)"

text \<open>A string option read with \<^verbatim>\<open>s || d\<close>: absent and empty strings are both falsy.\<close>

fun orElse :: "string option \<Rightarrow> string \<Rightarrow> string" where
  "orElse None d = d"
| "orElse (Some s) d = (if s = [] then d else s)"

fun truthyStr :: "string option \<Rightarrow> bool" where
  "truthyStr None = False"
| "truthyStr (Some s) = (s \<noteq> [])"

text \<open>
  \<^verbatim>\<open>String.prototype.split\<close> with a one-character separator: \<open>k\<close> separators give
  \<open>k + 1\<close> pieces, and the empty string gives one empty piece.
\<close>

fun splitOn :: "char \<Rightarrow> string \<Rightarrow> string list" where
  "splitOn sep [] = [[]]"
| "splitOn sep (c # cs) =
     (if c = sep then [] # splitOn sep cs
      else (case splitOn sep cs of [] \<Rightarrow> [[c]] | p # ps \<Rightarrow> (c # p) # ps))"

text \<open>
  \<^verbatim>\<open>String.prototype.trim\<close>: white space and line terminators are removed at both ends.
  Characters are the code units below 256.
\<close>

definition isSpace :: "char \<Rightarrow> bool" where
  "isSpace c = (of_char c \<in> {9, 10, 11, 12, 13, 32, 160 :: nat})"

definition trim :: "string \<Rightarrow> string" where
  "trim s = rev (dropWhile isSpace (rev (dropWhile isSpace s)))"

text \<open>\<^verbatim>\<open>s.replace(/"/g, '')\<close>: every double quote is deleted.\<close>

definition removeQuotes :: "string \<Rightarrow> string" where
  "removeQuotes s = filter (\<lambda>c. c \<noteq> CHR 0x22) s"

text \<open>Decimal rendering of a number, as a template string or \<^verbatim>\<open>toString\<close> gives it.\<close>

definition digitChar :: "nat \<Rightarrow> char" where
  "digitChar d = char_of (48 + d)"

fun natToString :: "nat \<Rightarrow> string" where
  "natToString n = (if n < 10 then [digitChar n] else natToString (n div 10) @ [digitChar (n mod 10)])"

definition intToString :: "int \<Rightarrow> string" where
  "intToString i = (if i < 0 then CHR ''-'' # natToString (nat (- i)) else natToString (nat i))"

text \<open>
  A property name that is the canonical decimal numeral of a number, and the names that
  are array indices: those below \<open>2 ^ 32 - 1\<close>. \<^verbatim>\<open>Object.keys\<close> lists the array indices of
  an object first, in ascending order, and then the other names in the order in which
  they were created.
\<close>

definition isDigit :: "char \<Rightarrow> bool" where
  "isDigit c = (48 \<le> (of_char c :: nat) \<and> (of_char c :: nat) \<le> 57)"

fun digitsValue :: "nat \<Rightarrow> string \<Rightarrow> nat" where
  "digitsValue acc [] = acc"
| "digitsValue acc (c # cs) =
     (if isDigit c then digitsValue (acc * 10 + (of_char c - 48)) cs else acc)"

definition arrayIndex :: "string \<Rightarrow> nat option" where
  "arrayIndex k =
     (if k \<noteq> [] \<and> list_all isDigit k \<and> natToString (digitsValue 0 k) = k
      then Some (digitsValue 0 k) else None)"

definition integerKey :: "string \<Rightarrow> nat option" where
  "integerKey k =
     (case arrayIndex k of
        Some i \<Rightarrow> (if i < 2 ^ 32 - 1 then Some i else None)
      | None \<Rightarrow> None)"

text \<open>
  A new property of an object, put where \<^verbatim>\<open>Object.keys\<close> lists it: an object is the list
  of its own properties in that order.
\<close>

fun insertKey :: "string \<Rightarrow> 'v \<Rightarrow> (string \<times> 'v) list \<Rightarrow> (string \<times> 'v) list" where
  "insertKey k v [] = [(k, v)]"
| "insertKey k v ((k', v') # kvs) =
     (case integerKey k of
        None \<Rightarrow> (k', v') # insertKey k v kvs
      | Some i \<Rightarrow>
          (case integerKey k' of
             Some j \<Rightarrow> (if i < j then (k, v) # (k', v') # kvs else (k', v') # insertKey k v kvs)
           | None \<Rightarrow> (k, v) # (k', v') # kvs))"

text \<open>
  The assignment \<^verbatim>\<open>o[k] = v\<close> of a string \<open>v\<close> to an object whose prototype is
  \<^verbatim>\<open>Object.prototype\<close>. An own property keeps its place and takes the value. The name
  \<^verbatim>\<open>__proto__\<close>, when it is not an own property, is the accessor of \<^verbatim>\<open>Object.prototype\<close>,
  whose setter ignores a value that is not an object: nothing is stored. Any other name
  becomes a new own property.
\<close>

definition assignPrimitive :: "string \<Rightarrow> 'v \<Rightarrow> (string \<times> 'v) list \<Rightarrow> (string \<times> 'v) list" where
  "assignPrimitive k v kvs =
     (if k \<in> fst ` set kvs then objSet k v kvs
      else if k = ''__proto__'' then kvs
      else insertKey k v kvs)"

text \<open>\<^verbatim>\<open>Array.prototype.join\<close>.\<close>

fun joinWith :: "string \<Rightarrow> string list \<Rightarrow> string" where
  "joinWith sep [] = []"
| "joinWith sep [x] = x"
| "joinWith sep (x # y # ys) = x @ sep @ joinWith sep (y # ys)"

section \<open>Response decoder: CSV\<close>

text \<open>
  \<^verbatim>\<open>parseCsvResponse\<close>: the first line gives the headers; every later line gives one row
  object, built from \<^verbatim>\<open>{}\<close> by assigning \<^verbatim>\<open>row[header] = values[index] || ''\<close> for each
  header in turn. The assignment is the one of a plain object, so a header \<^verbatim>\<open>__proto__\<close>
  stores nothing and a header that is an array index comes first among the keys.
\<close>

definition csvCells :: "string \<Rightarrow> string list" where
  "csvCells line = map (\<lambda>v. removeQuotes (trim v)) (splitOn CHR '','' line)"

definition csvCell :: "string list \<Rightarrow> nat \<Rightarrow> string" where
  "csvCell values index = (if index < length values then values ! index else [])"

definition csvRow :: "string list \<Rightarrow> string list \<Rightarrow> (string \<times> json) list" where
  "csvRow headers values =
     fold (\<lambda>(header, index) row. assignPrimitive header (JStr (csvCell values index)) row)
          (zip headers [0 ..< length headers]) []"

definition csvLines :: "string \<Rightarrow> string list" where
  "csvLines csvText = splitOn CHR 0x0A (trim csvText)"

definition parseCsvResponse :: "string \<Rightarrow> json list" where
  "parseCsvResponse csvText =
     (let lines = csvLines csvText in
      if length lines = 0 then []
      else (let headers = csvCells (hd lines) in
            map (\<lambda>line. JObj (csvRow headers (csvCells line))) (tl lines)))"

text \<open>The bodies used as examples below: plain lines, a quoted cell with a comma, a short row.\<close>

definition csvExample :: string where
  "csvExample = ''name,age'' @ [CHR 0x0A] @ ''Alice,30'' @ [CHR 0x0A] @ ''Bob,25''"

definition csvQuotedExample :: string where
  "csvQuotedExample = ''a,b'' @ [CHR 0x0A] @ [CHR 0x22] @ ''x,y'' @ [CHR 0x22] @ '',z''"

definition csvShortExample :: string where
  "csvShortExample = ''a,b,c'' @ [CHR 0x0A] @ ''1''"

text \<open>Two bodies with a header cell \<^verbatim>\<open>__proto__\<close>, and one whose header cells are numerals.\<close>

definition csvProtoExample :: string where
  "csvProtoExample = ''a,__proto__'' @ [CHR 0x0A] @ ''1''"

definition csvProtoFirstExample :: string where
  "csvProtoFirstExample = ''__proto__,a'' @ [CHR 0x0A] @ ''1,2''"

definition csvNumeralsExample :: string where
  "csvNumeralsExample = ''b,10,2'' @ [CHR 0x0A] @ ''x,y,z''"

section \<open>Response decoder: XML\<close>

text \<open>
  \<^verbatim>\<open>xmlToJson\<close> reads a DOM element: its attributes, its child elements and, for a leaf,
  its text content. An element is given by these four parts.
\<close>

datatype element =
  Element (tagName: string) (attributes: "(string \<times> string) list")
          (children: "element list") (textContent: string)

text \<open>
  One turn of the loop over the children: a tag name seen before turns its entry into
  an array (unless it already is one) and appends; a new tag name is assigned.
\<close>

definition addChild :: "(string \<times> json) list \<Rightarrow> string \<times> json \<Rightarrow> (string \<times> json) list" where
  "addChild result child =
     (case child of (childName, converted) \<Rightarrow>
        (case objGet result childName of
           Some existing \<Rightarrow>
             (if truthy existing then
                (case existing of
                   JArr items \<Rightarrow> objSet childName (JArr (items @ [converted])) result
                 | _ \<Rightarrow> objSet childName (JArr ([existing] @ [converted])) result)
              else objSet childName converted result)
         | None \<Rightarrow> objSet childName converted result))"

fun xmlToJson :: "element \<Rightarrow> json" where
  "xmlToJson (Element tag attrs kids txt) =
     (let result =
            (if length attrs > 0
             then [(''@attributes'', JObj (fold (\<lambda>(name, v) obj. objSet name (JStr v) obj) attrs []))]
             else [])
      in if length kids > 0
         then JObj (foldl addChild result (map (\<lambda>child. (tagName child, xmlToJson child)) kids))
         else JObj (objSet ''#text'' (JStr txt) result))"

text \<open>The document of the XML example: a root with two \<^verbatim>\<open>item\<close> leaves.\<close>

definition xmlExampleText :: string where
  "xmlExampleText = ''<root><item>1</item><item>2</item></root>''"

definition xmlExampleRoot :: element where
  "xmlExampleRoot =
     Element ''root'' [] [Element ''item'' [] [] ''1'', Element ''item'' [] [] ''2''] ''12''"

section \<open>Field mapper\<close>

text \<open>
  \<^verbatim>\<open>part in current\<close> followed by \<^verbatim>\<open>current[part]\<close>, for a value that is truthy and of
  type object: an object has its keys, an array has its indices and \<^verbatim>\<open>length\<close>.
\<close>

fun propOf :: "json \<Rightarrow> string \<Rightarrow> json option" where
  "propOf (JObj kvs) k = objGet kvs k"
| "propOf (JArr xs) k =
     (if k = ''length'' then Some (JNum (int (length xs)))
      else (case arrayIndex k of
              Some i \<Rightarrow> (if i < length xs then Some (xs ! i) else None)
            | None \<Rightarrow> None))"
| "propOf v k = None"

fun navigate :: "json \<Rightarrow> string list \<Rightarrow> json option" where
  "navigate current [] = Some current"
| "navigate current (part # rest) =
     (case propOf current part of
        Some v \<Rightarrow> navigate v rest
      | None \<Rightarrow> None)"

definition mapItem :: "(string \<times> string) list \<Rightarrow> json \<Rightarrow> json" where
  "mapItem fieldMap item =
     (let mapped =
            fold (\<lambda>(newKey, oldKey) m.
                    (case propOf item oldKey of Some v \<Rightarrow> objSet newKey v m | None \<Rightarrow> m))
                 fieldMap []
      in if length mapped > 0 then JObj mapped else item)"

record dataMapping =
  rootPath :: "string option"
  fieldNames :: "(string \<times> string) list option"

definition extractDataFromJson :: "json \<Rightarrow> dataMapping option \<Rightarrow> json" where
  "extractDataFromJson data dm =
     (case dm of
        None \<Rightarrow> data
      | Some m \<Rightarrow>
          (if \<not> truthyStr (rootPath m) then data
           else (case navigate data (splitOn CHR ''.'' (orElse (rootPath m) [])) of
                   None \<Rightarrow> data
                 | Some current \<Rightarrow>
                     (case fieldNames m of
                        Some fieldMap \<Rightarrow>
                          (case current of
                             JArr items \<Rightarrow> JArr (map (mapItem fieldMap) items)
                           | _ \<Rightarrow> current)
                      | None \<Rightarrow> current))))"

section \<open>Requests, responses and the platform\<close>

datatype httpMethod = MGet | MPost | MPut | MDelete | MPatch

datatype authType = AuthNone | AuthApiKey | AuthBearer | AuthBasic | AuthOAuth

datatype responseFormat = FJson | FXml | FCsv | FText

datatype paginationType = Offset | Cursor | Page

record credentials =
  apiKey :: "string option"
  apiKeyHeader :: "string option"
  token :: "string option"
  username :: "string option"
  password :: "string option"
  oauthToken :: "string option"

record authentication =
  authType :: authType
  credentials :: "credentials option"

record pagination =
  enabled :: bool
  paginationType :: "paginationType option"
  pageParam :: "string option"
  limitParam :: "string option"
  maxPages :: "rat option"

text \<open>The options of \<^verbatim>\<open>performApiExtraction\<close>, after the defaults of \<^verbatim>\<open>POST\<close>.\<close>

record options =
  url :: string
  method' :: httpMethod
  headers :: "(string \<times> string) list"
  body :: "string option"
  authentication :: authentication
  responseFormat :: responseFormat
  dataMapping :: "dataMapping option"
  pagination :: pagination
  timeout :: nat

text \<open>
  What \<^verbatim>\<open>fetch\<close> is called with, and what it gives: a rejection (network error, timeout)
  or a response. Header names of a response are in lower case, as \<^verbatim>\<open>Headers\<close> keeps
  them. \<^verbatim>\<open>response.text()\<close> gives the body or rejects.
\<close>

record fetchRequest =
  fetchUrl :: string
  fetchMethod :: httpMethod
  fetchHeaders :: "(string \<times> string) list"
  fetchBody :: "string option"
  fetchTimeout :: nat

record response =
  status :: nat
  statusText :: string
  responseHeaders :: "(string \<times> string) list"
  responseText :: "string + string"

datatype fetchOutcome = Rejected string | Response response

definition ok :: "response \<Rightarrow> bool" where
  "ok r = (200 \<le> status r \<and> status r \<le> 299)"

text \<open>A parsed \<^verbatim>\<open>URL\<close>: its scheme, its query parameters in order, and the rest.\<close>

record URL =
  protocol :: string
  location :: string
  searchParams :: "(string \<times> string) list"

text \<open>
  The functions of the runtime that the handler calls. \<^verbatim>\<open>fetch\<close> also takes the number of
  calls made before, so that the same request can be answered differently over time.
  \<^verbatim>\<open>newURL\<close>, \<^verbatim>\<open>jsonParse\<close> and \<^verbatim>\<open>domParse\<close> give \<open>None\<close> where the runtime throws.
\<close>

record platform =
  fetch :: "nat \<Rightarrow> fetchRequest \<Rightarrow> fetchOutcome"
  newURL :: "string \<Rightarrow> URL option"
  urlToString :: "URL \<Rightarrow> string"
  jsonParse :: "string \<Rightarrow> json option"
  jsonStringify :: "json \<Rightarrow> string"
  domParse :: "string \<Rightarrow> element option"
  btoa :: "string \<Rightarrow> string"

section \<open>Response decoder: dispatch\<close>

definition parseXmlResponse :: "platform \<Rightarrow> string \<Rightarrow> dataMapping option \<Rightarrow> json" where
  "parseXmlResponse P xmlText dm =
     (case domParse P xmlText of
        None \<Rightarrow> JStr xmlText
      | Some documentElement \<Rightarrow> extractDataFromJson (xmlToJson documentElement) dm)"

definition parseApiResponse :: "platform \<Rightarrow> string \<Rightarrow> responseFormat \<Rightarrow> dataMapping option \<Rightarrow> json" where
  "parseApiResponse P text format dm =
     (case format of
        FJson \<Rightarrow> (case jsonParse P text of
                    None \<Rightarrow> JStr text
                  | Some jsonData \<Rightarrow> extractDataFromJson jsonData dm)
      | FXml \<Rightarrow> parseXmlResponse P text dm
      | FCsv \<Rightarrow> JArr (parseCsvResponse text)
      | FText \<Rightarrow> JStr text)"

section \<open>Request authenticator\<close>

definition credential :: "authentication \<Rightarrow> (credentials \<Rightarrow> string option) \<Rightarrow> string option" where
  "credential auth field = (case credentials auth of None \<Rightarrow> None | Some c \<Rightarrow> field c)"

definition authHeaders :: "platform \<Rightarrow> authentication \<Rightarrow> (string \<times> string) list \<Rightarrow> (string \<times> string) list" where
  "authHeaders P auth hs =
     (if authType auth = AuthApiKey \<and> truthyStr (credential auth apiKey)
      then assignPrimitive (orElse (credential auth apiKeyHeader) ''X-API-Key'')
                  (orElse (credential auth apiKey) []) hs
      else if authType auth = AuthBearer \<and> truthyStr (credential auth token)
      then assignPrimitive ''Authorization'' (''Bearer '' @ orElse (credential auth token) []) hs
      else if authType auth = AuthBasic \<and> truthyStr (credential auth username)
              \<and> truthyStr (credential auth password)
      then assignPrimitive ''Authorization''
             (''Basic '' @ btoa P (orElse (credential auth username) [] @ '':''
                                    @ orElse (credential auth password) [])) hs
      else if authType auth = AuthOAuth \<and> truthyStr (credential auth oauthToken)
      then assignPrimitive ''Authorization'' (''Bearer '' @ orElse (credential auth oauthToken) []) hs
      else hs)"

definition sendsBody :: "httpMethod \<Rightarrow> bool" where
  "sendsBody m = (m = MPost \<or> m = MPut \<or> m = MPatch)"

definition requestHeaders :: "platform \<Rightarrow> options \<Rightarrow> (string \<times> string) list" where
  "requestHeaders P opts =
     (let hs = authHeaders P (authentication opts) (headers opts)
      in if sendsBody (method' opts) \<and> truthyStr (body opts)
            \<and> \<not> truthyStr (objGet hs ''Content-Type'')
         then assignPrimitive ''Content-Type'' ''application/json'' hs
         else hs)"

section \<open>Pagination controller\<close>

text \<open>
  \<^verbatim>\<open>parseInt\<close>: leading white space, an optional sign, then a hexadecimal numeral after
  \<^verbatim>\<open>0x\<close> or else the longest run of decimal digits; \<open>None\<close> is \<^verbatim>\<open>NaN\<close>. Numbers are
  integers, so the arithmetic is exact.
\<close>

definition hexDigit :: "char \<Rightarrow> nat option" where
  "hexDigit c =
     (let n = (of_char c :: nat)
      in if 48 \<le> n \<and> n \<le> 57 then Some (n - 48)
         else if 97 \<le> n \<and> n \<le> 102 then Some (n - 87)
         else if 65 \<le> n \<and> n \<le> 70 then Some (n - 55)
         else None)"

fun hexValue :: "nat \<Rightarrow> string \<Rightarrow> nat" where
  "hexValue acc [] = acc"
| "hexValue acc (c # cs) =
     (case hexDigit c of Some d \<Rightarrow> hexValue (acc * 16 + d) cs | None \<Rightarrow> acc)"

definition signed :: "bool \<Rightarrow> nat \<Rightarrow> int" where
  "signed negative n = (if negative then - int n else int n)"

definition parseInt :: "string \<Rightarrow> int option" where
  "parseInt s =
     (let t = dropWhile isSpace s;
          negative = (take 1 t = ''-'');
          r = (if take 1 t = ''-'' \<or> take 1 t = ''+'' then drop 1 t else t)
      in if take 2 r = ''0x'' \<or> take 2 r = ''0X''
         then (case drop 2 r of
                 [] \<Rightarrow> None
               | c # cs \<Rightarrow> (if hexDigit c = None then None
                            else Some (signed negative (hexValue 0 (c # cs)))))
         else (case r of
                 [] \<Rightarrow> None
               | c # cs \<Rightarrow> (if isDigit c then Some (signed negative (digitsValue 0 (c # cs)))
                            else None)))"

text \<open>Addition of two numbers and \<^verbatim>\<open>toString\<close> of the sum.\<close>

fun numAdd :: "int option \<Rightarrow> int option \<Rightarrow> int option" where
  "numAdd (Some a) (Some b) = Some (a + b)"
| "numAdd a b = None"

fun numToString :: "int option \<Rightarrow> string" where
  "numToString None = ''NaN''"
| "numToString (Some i) = intToString i"

text \<open>
  \<^verbatim>\<open>searchParams.set\<close>: the first pair of that name takes the value and the other pairs of
  that name are removed; without such a pair one is appended.
\<close>

fun spSet :: "string \<Rightarrow> string \<Rightarrow> (string \<times> string) list \<Rightarrow> (string \<times> string) list" where
  "spSet k v [] = [(k, v)]"
| "spSet k v ((k', v') # ps) =
     (if k' = k then (k, v) # filter (\<lambda>p. fst p \<noteq> k) ps else (k', v') # spSet k v ps)"

text \<open>
  The match of \<^verbatim>\<open>/<([^>]+)>;\s*rel="next"/\<close>: the first position where the pattern
  matches gives the group between the angle brackets.
\<close>

definition matchLinkAt :: "string \<Rightarrow> string option" where
  "matchLinkAt s =
     (case s of
        [] \<Rightarrow> None
      | c # r \<Rightarrow>
          (if c \<noteq> CHR ''<'' then None
           else (let target = takeWhile (\<lambda>x. x \<noteq> CHR ''>'') r;
                     after = drop 1 (dropWhile (\<lambda>x. x \<noteq> CHR ''>'') r)
                 in if target \<noteq> [] \<and> dropWhile (\<lambda>x. x \<noteq> CHR ''>'') r \<noteq> []
                       \<and> take 1 after = '';''
                       \<and> take 10 (dropWhile isSpace (drop 1 after)) = ''rel='' @ [CHR 0x22] @ ''next'' @ [CHR 0x22]
                    then Some target else None)))"

fun linkNext :: "string \<Rightarrow> string option" where
  "linkNext [] = None"
| "linkNext (c # cs) =
     (case matchLinkAt (c # cs) of Some target \<Rightarrow> Some target | None \<Rightarrow> linkNext cs)"

text \<open>\<^verbatim>\<open>String(v)\<close>, as \<^verbatim>\<open>searchParams.set\<close> applies it to its value.\<close>

fun jsString :: "json \<Rightarrow> string" where
  "jsString JNull = ''null''"
| "jsString (JBool b) = (if b then ''true'' else ''false'')"
| "jsString (JNum n) = intToString n"
| "jsString (JStr s) = s"
| "jsString (JArr xs) = joinWith '','' (map (\<lambda>x. if x = JNull then [] else jsString x) xs)"
| "jsString (JObj kvs) = ''[object Object]''"

definition getNextPageUrl :: "platform \<Rightarrow> response \<Rightarrow> json \<Rightarrow> pagination \<Rightarrow> string \<Rightarrow> nat \<Rightarrow> string option" where
  "getNextPageUrl P resp data pg currentUrl currentPage =
     (if \<not> enabled pg then None
      else (case newURL P currentUrl of
              None \<Rightarrow> None
            | Some u \<Rightarrow>
                (case paginationType pg of
                   Some Offset \<Rightarrow>
                     (let currentOffset = parseInt (orElse (objGet (searchParams u) (orElse (pageParam pg) ''offset'')) ''0'');
                          limit = parseInt (orElse (objGet (searchParams u) (orElse (limitParam pg) ''limit'')) ''10'')
                      in Some (urlToString P (u\<lparr>searchParams :=
                                 spSet (orElse (pageParam pg) ''offset'')
                                       (numToString (numAdd currentOffset limit)) (searchParams u)\<rparr>)))
                 | Some Page \<Rightarrow>
                     (let currentPageNum = parseInt (orElse (objGet (searchParams u) (orElse (pageParam pg) ''page'')) ''1'')
                      in Some (urlToString P (u\<lparr>searchParams :=
                                 spSet (orElse (pageParam pg) ''page'')
                                       (numToString (numAdd currentPageNum (Some 1))) (searchParams u)\<rparr>)))
                 | Some Cursor \<Rightarrow>
                     (case (if truthyStr (objGet (responseHeaders resp) ''link'')
                            then linkNext (orElse (objGet (responseHeaders resp) ''link'') [])
                            else None) of
                        Some target \<Rightarrow> Some target
                      | None \<Rightarrow>
                          (case data of
                             JObj kvs \<Rightarrow>
                               (case objGet kvs ''next_cursor'' of
                                  Some cursor \<Rightarrow>
                                    (if truthy cursor
                                     then Some (urlToString P (u\<lparr>searchParams :=
                                                  spSet (orElse (pageParam pg) ''cursor'')
                                                        (jsString cursor) (searchParams u)\<rparr>))
                                     else None)
                                | None \<Rightarrow> None)
                           | _ \<Rightarrow> None))
                 | None \<Rightarrow> None)))"

section \<open>Aggregator and formatter\<close>

definition maxRecordsToShow :: "json list \<Rightarrow> nat" where
  "maxRecordsToShow data = (if length data > 20 then 10 else min (length data) 5)"

definition sampleData :: "json list \<Rightarrow> json list" where
  "sampleData data = take (maxRecordsToShow data) data"

fun formatUpperCase :: "responseFormat \<Rightarrow> string" where
  "formatUpperCase FJson = ''JSON''"
| "formatUpperCase FXml = ''XML''"
| "formatUpperCase FCsv = ''CSV''"
| "formatUpperCase FText = ''TEXT''"

text \<open>
  \<^verbatim>\<open>Object.keys\<close>, called on a value of type object only: it throws on \<^verbatim>\<open>null\<close> (\<open>None\<close>).
  Keys are listed in insertion order.
\<close>

fun objectKeys :: "json \<Rightarrow> string list option" where
  "objectKeys JNull = None"
| "objectKeys (JObj kvs) = Some (map fst kvs)"
| "objectKeys (JArr xs) = Some (map natToString [0 ..< length xs])"
| "objectKeys v = Some []"

fun truthyProp :: "json option \<Rightarrow> bool" where
  "truthyProp None = False"
| "truthyProp (Some v) = truthy v"

text \<open>
  The size of \<^verbatim>\<open>new Set(data.map(item => item.userId))\<close>: primitive values and
  \<^verbatim>\<open>undefined\<close> count once each, every object or array counts on its own.
\<close>

fun isReference :: "json option \<Rightarrow> bool" where
  "isReference (Some (JArr xs)) = True"
| "isReference (Some (JObj kvs)) = True"
| "isReference v = False"

definition uniqueCount :: "json option list \<Rightarrow> nat" where
  "uniqueCount vs =
     length (remdups (filter (\<lambda>v. \<not> isReference v) vs)) + length (filter isReference vs)"

definition truncationNotice :: "json list \<Rightarrow> string" where
  "truncationNotice data =
     ''\<newline>\<newline>... and '' @ natToString (length data - maxRecordsToShow data)
     @ '' more records (truncated for display)''"

text \<open>The summary statistics; \<open>None\<close> where \<^verbatim>\<open>Object.keys\<close> or \<^verbatim>\<open>item.userId\<close> throws.\<close>

definition datasetSummary :: "json list \<Rightarrow> string option" where
  "datasetSummary data =
     (let total = ''\<newline>\<newline>DATASET SUMMARY:'' @ ''\<newline>Total Records: '' @ natToString (length data)
      in case data of
           [] \<Rightarrow> Some total
         | sampleRecord # others \<Rightarrow>
             (if \<not> typeofObject sampleRecord then Some total
              else (case objectKeys sampleRecord of
                      None \<Rightarrow> None
                    | Some keys \<Rightarrow>
                        (let withFields =
                               total @ ''\<newline>Fields per Record: '' @ natToString (length keys)
                               @ ''\<newline>Sample Fields: '' @ joinWith '', '' (take 5 keys)
                               @ (if length keys > 5 then ''...'' else [])
                         in if truthyProp (propOf sampleRecord ''userId'')
                            then (if JNull \<in> set data then None
                                  else Some (withFields @ ''\<newline>Unique Users: ''
                                       @ natToString (uniqueCount (map (\<lambda>item. propOf item ''userId'') data))))
                            else Some withFields))))"

definition renderRecord :: "platform \<Rightarrow> nat \<Rightarrow> json \<Rightarrow> string" where
  "renderRecord P i r =
     ''\<newline>Record '' @ natToString (i + 1) @ '':\<newline>''
     @ (if typeofObject r then jsonStringify P r else jsString r)"

definition clampText :: "string \<Rightarrow> string" where
  "clampText t =
     (if length t > 25000
      then take 25000 t @ ''\<newline>\<newline>[Content truncated due to size - full data available for export]''
      else t)"

definition resultsHeader :: "json list \<Rightarrow> responseFormat \<Rightarrow> string" where
  "resultsHeader data format =
     ''API ENDPOINT EXTRACTION RESULTS\<newline>''
     @ ''Records Extracted: '' @ natToString (length data) @ ''\<newline>''
     @ ''Response Format: '' @ formatUpperCase format @ ''\<newline>\<newline>''"

definition showingLine :: "json list \<Rightarrow> string" where
  "showingLine data =
     ''Showing '' @ natToString (maxRecordsToShow data) @ '' of '' @ natToString (length data)
     @ '' records:\<newline>''"

text \<open>\<^verbatim>\<open>formatExtractedData\<close>; \<open>None\<close> where it throws. Its third argument is not used.\<close>

definition formatExtractedData :: "platform \<Rightarrow> json list \<Rightarrow> responseFormat \<Rightarrow> string option" where
  "formatExtractedData P data format =
     (if length data = 0 then Some ''No data extracted from API endpoint.''
      else if format = FJson then
        (let shown = resultsHeader data format @ ''EXTRACTED DATA (JSON) - '' @ showingLine data
                     @ jsonStringify P (JArr (sampleData data))
         in if length data > maxRecordsToShow data
            then (case datasetSummary data of
                    None \<Rightarrow> None
                  | Some summary \<Rightarrow> Some (clampText (shown @ truncationNotice data @ summary)))
            else Some (clampText shown))
      else
        Some (clampText
               (resultsHeader data format @ ''EXTRACTED DATA - '' @ showingLine data
                @ concat (map (\<lambda>i. renderRecord P i (sampleData data ! i)) [0 ..< maxRecordsToShow data])
                @ (if length data > maxRecordsToShow data then truncationNotice data else []))))"

fun jsTypeof :: "json \<Rightarrow> string" where
  "jsTypeof (JBool b) = ''boolean''"
| "jsTypeof (JNum n) = ''number''"
| "jsTypeof (JStr s) = ''string''"
| "jsTypeof v = ''object''"

definition analyzeDataStructure :: "json list \<Rightarrow> string" where
  "analyzeDataStructure data =
     (case data of
        [] \<Rightarrow> ''Empty dataset''
      | sample # others \<Rightarrow>
          (case sample of
             JArr xs \<Rightarrow> ''Array of arrays''
           | JObj kvs \<Rightarrow>
               ''Object with '' @ natToString (length kvs) @ '' fields: ''
               @ joinWith '', '' (take 3 (map fst kvs)) @ (if length kvs > 3 then ''...'' else [])
           | _ \<Rightarrow> ''Primitive values ('' @ jsTypeof sample @ '')''))"

section \<open>The extraction loop\<close>

text \<open>
  The local variables of \<^verbatim>\<open>performApiExtraction\<close>, with three records of what the run did:
  the calls of \<^verbatim>\<open>fetch\<close> with their outcomes, the delays waited, and the warnings written
  to the console (page number and message).
\<close>

record loopState =
  retryCount :: nat
  rateLimitHit :: bool
  allData :: "json list"
  pagesProcessed :: nat
  finalStatusCode :: nat
  finalResponseHeaders :: "(string \<times> string) list"
  totalResponseSize :: nat
  currentUrl :: string
  hasMorePages :: bool
  calls :: "(fetchRequest \<times> fetchOutcome) list"
  delays :: "nat list"
  warnings :: "(nat \<times> string) list"

definition initialState :: "options \<Rightarrow> loopState" where
  "initialState opts =
     \<lparr>retryCount = 0, rateLimitHit = False, allData = [], pagesProcessed = 0,
      finalStatusCode = 200, finalResponseHeaders = [], totalResponseSize = 0,
      currentUrl = url opts, hasMorePages = True, calls = [], delays = [], warnings = []\<rparr>"

text \<open>
  \<^verbatim>\<open>pagination.maxPages || 10\<close>: an absent value and the value 0 both give 10. The value
  is a number of the request body, which need not be whole or positive, so it is a
  rational here; the loop compares the count of pages with it.
\<close>

definition maxPagesOf :: "pagination \<Rightarrow> rat" where
  "maxPagesOf pg = (case maxPages pg of None \<Rightarrow> 10 | Some m \<Rightarrow> (if m = 0 then 10 else m))"

definition loopCondition :: "options \<Rightarrow> loopState \<Rightarrow> bool" where
  "loopCondition opts st =
     (hasMorePages st \<and> of_nat (pagesProcessed st) < maxPagesOf (pagination opts))"

text \<open>
  One turn of the loop ends in the next turn (also after \<^verbatim>\<open>continue\<close>) or in an error
  thrown out of the loop.
\<close>

datatype stepResult = Next loopState | Thrown string loopState

text \<open>The \<^verbatim>\<open>catch (pageError)\<close> block.\<close>

definition catchPage :: "string \<Rightarrow> loopState \<Rightarrow> stepResult" where
  "catchPage pageError st =
     (if pagesProcessed st = 0 then Thrown pageError st
      else Next (st\<lparr>warnings := warnings st @ [(pagesProcessed st + 1, pageError)],
                    hasMorePages := False\<rparr>))"

definition requestFailed :: "response \<Rightarrow> string" where
  "requestFailed r =
     ''API request failed: '' @ natToString (status r) @ '' '' @ statusText r"

definition pushParsed :: "json list \<Rightarrow> json \<Rightarrow> json list" where
  "pushParsed collected parsedData =
     (case parsedData of JArr items \<Rightarrow> collected @ items | _ \<Rightarrow> collected @ [parsedData])"

definition fetchRequestOf :: "options \<Rightarrow> (string \<times> string) list \<Rightarrow> loopState \<Rightarrow> fetchRequest" where
  "fetchRequestOf opts hs st =
     \<lparr>fetchUrl = currentUrl st, fetchMethod = method' opts, fetchHeaders = hs,
      fetchBody = (if sendsBody (method' opts) then body opts else None),
      fetchTimeout = timeout opts\<rparr>"

text \<open>The part of a turn after a response with an ok status and a body that was read.\<close>

definition pageDone :: "platform \<Rightarrow> options \<Rightarrow> response \<Rightarrow> string \<Rightarrow> loopState \<Rightarrow> loopState" where
  "pageDone P opts r text st =
     (let parsedData = parseApiResponse P text (responseFormat opts) (dataMapping opts);
          st1 = st\<lparr>totalResponseSize := totalResponseSize st + length text,
                    pagesProcessed := pagesProcessed st + 1,
                    allData := pushParsed (allData st) parsedData\<rparr>
      in if enabled (pagination opts) \<and> of_nat (pagesProcessed st1) < maxPagesOf (pagination opts)
         then (case getNextPageUrl P r parsedData (pagination opts) (currentUrl st1) (pagesProcessed st1) of
                 Some nextUrl \<Rightarrow>
                   (if nextUrl \<noteq> [] \<and> nextUrl \<noteq> currentUrl st1
                    then st1\<lparr>currentUrl := nextUrl\<rparr>
                    else st1\<lparr>hasMorePages := False\<rparr>)
               | None \<Rightarrow> st1\<lparr>hasMorePages := False\<rparr>)
         else st1\<lparr>hasMorePages := False\<rparr>)"

definition pageStep :: "platform \<Rightarrow> options \<Rightarrow> (string \<times> string) list \<Rightarrow> loopState \<Rightarrow> stepResult" where
  "pageStep P opts hs st =
     (let request = fetchRequestOf opts hs st;
          outcome = fetch P (length (calls st)) request;
          st1 = st\<lparr>calls := calls st @ [(request, outcome)]\<rparr>
      in case outcome of
           Rejected pageError \<Rightarrow> catchPage pageError st1
         | Response r \<Rightarrow>
             (let st2 = st1\<lparr>finalStatusCode := status r, finalResponseHeaders := responseHeaders r\<rparr>
              in if \<not> ok r then
                   (if status r = 429 then
                      (let st3 = st2\<lparr>rateLimitHit := True, delays := delays st2 @ [2000],
                                       retryCount := retryCount st2 + 1\<rparr>
                       in if retryCount st3 < 3 then Next st3
                          else catchPage (requestFailed r) st3)
                    else catchPage (requestFailed r) st2)
                 else (case responseText r of
                         Inl pageError \<Rightarrow> catchPage pageError st2
                       | Inr text \<Rightarrow> Next (pageDone P opts r text st2))))"

definition loopMeasure :: "options \<Rightarrow> loopState \<Rightarrow> nat" where
  "loopMeasure opts st =
     (nat \<lceil>maxPagesOf (pagination opts)\<rceil> - pagesProcessed st) + (3 - retryCount st)
     + (if hasMorePages st then 1 else 0)"

function fetchLoop :: "platform \<Rightarrow> options \<Rightarrow> (string \<times> string) list \<Rightarrow> loopState \<Rightarrow> (string \<times> loopState) + loopState" where
  "fetchLoop P opts hs st =
     (if loopCondition opts st
      then (case pageStep P opts hs st of
              Next st' \<Rightarrow> fetchLoop P opts hs st'
            | Thrown pageError st' \<Rightarrow> Inl (pageError, st'))
      else Inr st)"
  by pat_completeness auto
termination
proof (relation "measure (\<lambda>(P, opts, hs, st). loopMeasure opts st)", goal_cases)
  case 1
  show ?case by simp
next
  case (2 P opts hs st st')
  from 2(1) have "pagesProcessed st < nat \<lceil>maxPagesOf (pagination opts)\<rceil>"
    by (simp add: loopCondition_def less_ceiling_iff zless_nat_eq_int_zless)
  with 2 show ?case
    by (auto simp: pageStep_def pageDone_def catchPage_def loopCondition_def loopMeasure_def Let_def
             split: fetchOutcome.splits sum.splits if_splits option.splits)
qed

section \<open>Result and route handler\<close>

text \<open>
  \<^verbatim>\<open>ApiEndpointResponse\<close> without its wall-clock fields (\<^verbatim>\<open>extractedAt\<close>, \<^verbatim>\<open>processingTime\<close>
  and the three timings). Fields that share a name with a local variable of the loop
  carry the name of their group in front.
\<close>

record metadata =
  metadataUrl :: string
  metadataMethod :: httpMethod
  metadataResponseFormat :: responseFormat
  statusCode :: nat
  responseSize :: nat
  metadataPagesProcessed :: nat

record performance =
  performanceRateLimitHit :: bool
  performanceRetryCount :: nat

record apiInfo =
  hasAuthentication :: bool
  apiInfoResponseHeaders :: "(string \<times> string) list"
  contentType :: string
  dataStructure :: string
  recordCount :: nat

record apiEndpointResponse =
  extractedData :: string
  metadata :: metadata
  performance :: performance
  apiInfo :: apiInfo

text \<open>The run of the loop from the initial state, with the headers of the authenticator.\<close>

definition runLoop :: "platform \<Rightarrow> options \<Rightarrow> (string \<times> loopState) + loopState" where
  "runLoop P opts = fetchLoop P opts (requestHeaders P opts) (initialState opts)"

definition buildResult :: "options \<Rightarrow> loopState \<Rightarrow> string \<Rightarrow> apiEndpointResponse" where
  "buildResult opts st formattedData =
     \<lparr>extractedData = formattedData,
      metadata = \<lparr>metadataUrl = url opts, metadataMethod = method' opts,
                  metadataResponseFormat = responseFormat opts,
                  statusCode = finalStatusCode st,
                  responseSize = totalResponseSize st,
                  metadataPagesProcessed = pagesProcessed st\<rparr>,
      performance = \<lparr>performanceRateLimitHit = rateLimitHit st,
                     performanceRetryCount = retryCount st\<rparr>,
      apiInfo = \<lparr>hasAuthentication = (authType (authentication opts) \<noteq> AuthNone),
                 apiInfoResponseHeaders = finalResponseHeaders st,
                 contentType = orElse (objGet (finalResponseHeaders st) ''content-type'') ''unknown'',
                 dataStructure = analyzeDataStructure (allData st),
                 recordCount = length (allData st)\<rparr>\<rparr>"

text \<open>\<^verbatim>\<open>performApiExtraction\<close>: the error thrown (\<open>Inl\<close>) or the result.\<close>

definition performApiExtraction :: "platform \<Rightarrow> options \<Rightarrow> string + apiEndpointResponse" where
  "performApiExtraction P opts =
     (case runLoop P opts of
        Inl (pageError, st) \<Rightarrow> Inl pageError
      | Inr st \<Rightarrow>
          (case formatExtractedData P (allData st) (responseFormat opts) of
             None \<Rightarrow> Inl ''TypeError''
           | Some formattedData \<Rightarrow> Inr (buildResult opts st formattedData)))"

text \<open>The body of the request to \<^verbatim>\<open>POST\<close>, every field optional, and the three kinds of reply.\<close>

record apiEndpointRequest =
  requestUrl :: "string option"
  requestMethod :: "httpMethod option"
  requestHeadersField :: "(string \<times> string) list option"
  requestBody :: "string option"
  requestAuthentication :: "authentication option"
  requestResponseFormat :: "responseFormat option"
  requestDataMapping :: "dataMapping option"
  requestPagination :: "pagination option"
  requestTimeout :: "nat option"

datatype reply =
    Json200 apiEndpointResponse
  | Json400 string
  | Json500 string string metadata

definition optionsOf :: "apiEndpointRequest \<Rightarrow> options" where
  "optionsOf rq =
     \<lparr>url = orElse (requestUrl rq) [],
      method' = (case requestMethod rq of None \<Rightarrow> MGet | Some m \<Rightarrow> m),
      headers = (case requestHeadersField rq of None \<Rightarrow> [] | Some hs \<Rightarrow> hs),
      body = requestBody rq,
      authentication = (case requestAuthentication rq of
                          None \<Rightarrow> \<lparr>authType = AuthNone, credentials = None\<rparr>
                        | Some a \<Rightarrow> a),
      responseFormat = (case requestResponseFormat rq of None \<Rightarrow> FJson | Some f \<Rightarrow> f),
      dataMapping = requestDataMapping rq,
      pagination = (case requestPagination rq of
                      None \<Rightarrow> \<lparr>enabled = False, paginationType = None, pageParam = None,
                                limitParam = None, maxPages = None\<rparr>
                    | Some pg \<Rightarrow> pg),
      timeout = (case requestTimeout rq of None \<Rightarrow> 30000 | Some t \<Rightarrow> t)\<rparr>"

definition POST :: "platform \<Rightarrow> apiEndpointRequest \<Rightarrow> reply" where
  "POST P rq =
     (let opts = optionsOf rq
      in if \<not> truthyStr (requestUrl rq) \<or> length (trim (url opts)) = 0
         then Json400 ''API endpoint URL is required''
         else (case newURL P (url opts) of
                 None \<Rightarrow> Json400 ''Invalid API endpoint URL format''
               | Some validUrl \<Rightarrow>
                   (if protocol validUrl \<noteq> ''http:'' \<and> protocol validUrl \<noteq> ''https:''
                    then Json400 ''Only HTTP and HTTPS URLs are allowed''
                    else (case performApiExtraction P opts of
                            Inr result \<Rightarrow> Json200 result
                          | Inl details \<Rightarrow>
                              Json500 ''API extraction failed'' details
                                \<lparr>metadataUrl = url opts, metadataMethod = method' opts,
                                 metadataResponseFormat = responseFormat opts,
                                 statusCode = 0, responseSize = 0,
                                 metadataPagesProcessed = 0\<rparr>))))"

section \<open>Observations on a run\<close>

text \<open>The state in which a run of the loop ended, thrown or not.\<close>

fun stateOf :: "(string \<times> loopState) + loopState \<Rightarrow> loopState" where
  "stateOf (Inl (pageError, st)) = st"
| "stateOf (Inr st) = st"

text \<open>A call gave a page when its response had an ok status and its body was read.\<close>

fun pageText :: "fetchOutcome \<Rightarrow> string option" where
  "pageText (Rejected e) = None"
| "pageText (Response r) =
     (if ok r then (case responseText r of Inl e \<Rightarrow> None | Inr text \<Rightarrow> Some text) else None)"

definition pageTexts :: "(fetchRequest \<times> fetchOutcome) list \<Rightarrow> string list" where
  "pageTexts made = List.map_filter (\<lambda>call. pageText (snd call)) made"

text \<open>The records of a list of page bodies, decoded and appended page by page.\<close>

definition aggregate :: "platform \<Rightarrow> options \<Rightarrow> string list \<Rightarrow> json list" where
  "aggregate P opts texts =
     foldl pushParsed []
       (map (\<lambda>text. parseApiResponse P text (responseFormat opts) (dataMapping opts)) texts)"

text \<open>The status of the last response among the calls, if there was a response.\<close>

fun responseStatus :: "fetchOutcome \<Rightarrow> nat option" where
  "responseStatus (Rejected e) = None"
| "responseStatus (Response r) = Some (status r)"

definition lastStatus :: "(fetchRequest \<times> fetchOutcome) list \<Rightarrow> nat option" where
  "lastStatus made =
     (let statuses = List.map_filter (\<lambda>call. responseStatus (snd call)) made
      in if statuses = [] then None else Some (last statuses))"

text \<open>The selected authentication mode lacks a credential that it requires.\<close>

definition missingCredential :: "authentication \<Rightarrow> bool" where
  "missingCredential auth =
     (case authType auth of
        AuthNone \<Rightarrow> False
      | AuthApiKey \<Rightarrow> \<not> truthyStr (credential auth apiKey)
      | AuthBearer \<Rightarrow> \<not> truthyStr (credential auth token)
      | AuthBasic \<Rightarrow> \<not> (truthyStr (credential auth username) \<and> truthyStr (credential auth password))
      | AuthOAuth \<Rightarrow> \<not> truthyStr (credential auth oauthToken))"

fun isJson400 :: "reply \<Rightarrow> bool" where
  "isJson400 (Json400 e) = True"
| "isJson400 r = False"

text \<open>The state after one turn of the loop, thrown or not.\<close>

fun stepState :: "stepResult \<Rightarrow> loopState" where
  "stepState (Next st) = st"
| "stepState (Thrown pageError st) = st"



text \<open>
  For offset pagination: the names of the two query parameters, the offset and the limit
  that \<^verbatim>\<open>getNextPageUrl\<close> reads from a URL, and the URL expected for the request after
  \<open>k\<close> pages when the limit is \<open>L\<close>: the first URL, with the offset parameter set \<open>k\<close>
  times, to \<open>L\<close>, \<open>2 L\<close>, ..., \<open>k L\<close>.
\<close>

definition offsetName :: "pagination \<Rightarrow> string" where
  "offsetName pg = orElse (pageParam pg) ''offset''"

definition limitName :: "pagination \<Rightarrow> string" where
  "limitName pg = orElse (limitParam pg) ''limit''"

definition offsetOf :: "platform \<Rightarrow> pagination \<Rightarrow> string \<Rightarrow> int option" where
  "offsetOf P pg s =
     (case newURL P s of
        None \<Rightarrow> None
      | Some u \<Rightarrow> parseInt (orElse (objGet (searchParams u) (offsetName pg)) ''0''))"

definition limitOf :: "platform \<Rightarrow> pagination \<Rightarrow> string \<Rightarrow> int option" where
  "limitOf P pg s =
     (case newURL P s of
        None \<Rightarrow> None
      | Some u \<Rightarrow> parseInt (orElse (objGet (searchParams u) (limitName pg)) ''10''))"

fun offsetUrl :: "pagination \<Rightarrow> URL \<Rightarrow> int \<Rightarrow> nat \<Rightarrow> URL" where
  "offsetUrl pg u0 L 0 = u0"
| "offsetUrl pg u0 L (Suc k) =
     (offsetUrl pg u0 L k)\<lparr>searchParams :=
        spSet (offsetName pg) (intToString (int (Suc k) * L)) (searchParams (offsetUrl pg u0 L k))\<rparr>"

definition offsetUrlString :: "platform \<Rightarrow> options \<Rightarrow> URL \<Rightarrow> int \<Rightarrow> nat \<Rightarrow> string" where
  "offsetUrlString P opts u0 L k =
     (if k = 0 then url opts else urlToString P (offsetUrl (pagination opts) u0 L k))"

text \<open>
  The setting of a run with offset pagination: the two parameter names differ, the first
  URL parses to \<open>u0\<close>, its offset reads as 0 and its limit as \<open>L\<close>, and the URL parser
  reads back each of the expected URLs below the limit of pages from its string.
\<close>

definition offsetSetting :: "platform \<Rightarrow> options \<Rightarrow> URL \<Rightarrow> int \<Rightarrow> bool" where
  "offsetSetting P opts u0 L =
     (enabled (pagination opts) \<and> paginationType (pagination opts) = Some Offset
      \<and> offsetName (pagination opts) \<noteq> limitName (pagination opts)
      \<and> newURL P (url opts) = Some u0
      \<and> parseInt (orElse (objGet (searchParams u0) (offsetName (pagination opts))) ''0'') = Some 0
      \<and> parseInt (orElse (objGet (searchParams u0) (limitName (pagination opts))) ''10'') = Some L
      \<and> (\<forall>k. 0 < k \<and> of_nat k < maxPagesOf (pagination opts) \<longrightarrow>
             newURL P (urlToString P (offsetUrl (pagination opts) u0 L k))
               = Some (offsetUrl (pagination opts) u0 L k)))"

text \<open>
  What holds of a state of such a run: the pages counted are the pages of the calls, the
  records are theirs, while the loop is open the current URL is the expected one, and
  every call went to the URL expected after the pages fetched before it.
\<close>

definition offsetInvariant :: "platform \<Rightarrow> options \<Rightarrow> URL \<Rightarrow> int \<Rightarrow> loopState \<Rightarrow> bool" where
  "offsetInvariant P opts u0 L st =
     ((pagesProcessed st = length (pageTexts (calls st))
       \<and> allData st = aggregate P opts (pageTexts (calls st)))
      \<and> (hasMorePages st \<longrightarrow> currentUrl st = offsetUrlString P opts u0 L (pagesProcessed st))
      \<and> (\<forall>j < length (calls st).
            fetchUrl (fst (calls st ! j))
              = offsetUrlString P opts u0 L (length (pageTexts (take j (calls st))))))"

section \<open>Example runs\<close>

text \<open>
  A small runtime for the examples: URLs of the form \<^verbatim>\<open>scheme://rest?k=v&k=v\<close> are split at
  the first question mark, at every ampersand and at the first equals sign; no JSON
  parser; the XML parser knows the example document.
\<close>

definition exampleNewURL :: "string \<Rightarrow> URL option" where
  "exampleNewURL s =
     (if CHR '':'' \<notin> set s then None
      else (let query = drop 1 (dropWhile (\<lambda>c. c \<noteq> CHR ''?'') s)
            in Some \<lparr>protocol = takeWhile (\<lambda>c. c \<noteq> CHR '':'') s @ '':'',
                     location = takeWhile (\<lambda>c. c \<noteq> CHR ''?'') s,
                     searchParams =
                       (if query = [] then []
                        else map (\<lambda>kv. (takeWhile (\<lambda>c. c \<noteq> CHR ''='') kv,
                                        drop 1 (dropWhile (\<lambda>c. c \<noteq> CHR ''='') kv)))
                                 (splitOn CHR ''&'' query))\<rparr>))"

definition exampleUrlToString :: "URL \<Rightarrow> string" where
  "exampleUrlToString u =
     location u
     @ (if searchParams u = [] then []
        else ''?'' @ joinWith ''&'' (map (\<lambda>(k, v). k @ ''='' @ v) (searchParams u)))"

definition examplePlatform :: "(nat \<Rightarrow> fetchRequest \<Rightarrow> fetchOutcome) \<Rightarrow> platform" where
  "examplePlatform f =
     \<lparr>fetch = f, newURL = exampleNewURL, urlToString = exampleUrlToString,
      jsonParse = (\<lambda>s. None), jsonStringify = (\<lambda>j. ''{}''),
      domParse = (\<lambda>s. if s = xmlExampleText then Some xmlExampleRoot else None),
      btoa = (\<lambda>s. s)\<rparr>"

definition csvPage :: response where
  "csvPage = \<lparr>status = 200, statusText = ''OK'',
              responseHeaders = [(''content-type'', ''text/csv'')],
              responseText = Inr csvExample\<rparr>"

definition tooManyRequests :: response where
  "tooManyRequests = \<lparr>status = 429, statusText = ''Too Many Requests'',
                      responseHeaders = [], responseText = Inr []\<rparr>"

definition serverError :: response where
  "serverError = \<lparr>status = 500, statusText = ''Internal Server Error'',
                  responseHeaders = [], responseText = Inr []\<rparr>"

text \<open>Four servers: always 429; always a CSV page; one page, then a time-out; one page, then 500.\<close>

definition always429 :: "nat \<Rightarrow> fetchRequest \<Rightarrow> fetchOutcome" where
  "always429 n request = Response tooManyRequests"

definition alwaysPage :: "nat \<Rightarrow> fetchRequest \<Rightarrow> fetchOutcome" where
  "alwaysPage n request = Response csvPage"

definition pageThenTimeout :: "nat \<Rightarrow> fetchRequest \<Rightarrow> fetchOutcome" where
  "pageThenTimeout n request = (if n = 0 then Response csvPage else Rejected ''timeout'')"

definition pageThen500 :: "nat \<Rightarrow> fetchRequest \<Rightarrow> fetchOutcome" where
  "pageThen500 n request = (if n = 0 then Response csvPage else Response serverError)"

definition noPagination :: pagination where
  "noPagination = \<lparr>enabled = False, paginationType = None, pageParam = None,
                   limitParam = None, maxPages = None\<rparr>"

definition pagesUpTo :: "rat \<Rightarrow> pagination" where
  "pagesUpTo m = \<lparr>enabled = True, paginationType = Some Page, pageParam = None,
                  limitParam = None, maxPages = Some m\<rparr>"

definition offsetsUpTo :: "rat \<Rightarrow> pagination" where
  "offsetsUpTo m = \<lparr>enabled = True, paginationType = Some Offset, pageParam = None,
                    limitParam = None, maxPages = Some m\<rparr>"

definition exampleRequest :: apiEndpointRequest where
  "exampleRequest =
     \<lparr>requestUrl = Some ''http://api.test/items?limit=5'', requestMethod = None,
      requestHeadersField = None, requestBody = None, requestAuthentication = None,
      requestResponseFormat = Some FCsv, requestDataMapping = None,
      requestPagination = None, requestTimeout = None\<rparr>"

definition bearerWithoutToken :: authentication where
  "bearerWithoutToken = \<lparr>authType = AuthBearer, credentials = None\<rparr>"


text \<open>Variants of the example request, and what a reply reports.\<close>

definition zeroMaxPagesRequest :: apiEndpointRequest where
  "zeroMaxPagesRequest =
     exampleRequest\<lparr>requestPagination := Some (noPagination\<lparr>maxPages := Some 0\<rparr>)\<rparr>"

definition pagedRequest :: "rat \<Rightarrow> apiEndpointRequest" where
  "pagedRequest m = exampleRequest\<lparr>requestPagination := Some (pagesUpTo m)\<rparr>"

definition offsetRequest :: "rat \<Rightarrow> apiEndpointRequest" where
  "offsetRequest m = exampleRequest\<lparr>requestPagination := Some (offsetsUpTo m)\<rparr>"

definition bearerRequest :: apiEndpointRequest where
  "bearerRequest = exampleRequest\<lparr>requestAuthentication := Some bearerWithoutToken\<rparr>"

fun replyPages :: "reply \<Rightarrow> nat option" where
  "replyPages (Json200 r) = Some (metadataPagesProcessed (metadata r))"
| "replyPages r = None"

fun replyStatus :: "reply \<Rightarrow> nat option" where
  "replyStatus (Json200 r) = Some (statusCode (metadata r))"
| "replyStatus r = None"

fun replyRecords :: "reply \<Rightarrow> nat option" where
  "replyRecords (Json200 r) = Some (recordCount (apiInfo r))"
| "replyRecords r = None"

text \<open>No authentication, the default of \<^verbatim>\<open>POST\<close>, and the URL checks that \<^verbatim>\<open>POST\<close> makes.\<close>

definition noAuthentication :: authentication where
  "noAuthentication = \<lparr>authType = AuthNone, credentials = None\<rparr>"

definition urlRejected :: "platform \<Rightarrow> apiEndpointRequest \<Rightarrow> bool" where
  "urlRejected P rq =
     (\<not> truthyStr (requestUrl rq) \<or> length (trim (orElse (requestUrl rq) [])) = 0
      \<or> (case newURL P (orElse (requestUrl rq) []) of
            None \<Rightarrow> True
          | Some validUrl \<Rightarrow> protocol validUrl \<noteq> ''http:'' \<and> protocol validUrl \<noteq> ''https:''))"

(*DEFS-END*)

section \<open>Basic facts\<close>

lemma natToString_digit: "n < 10 \<Longrightarrow> natToString n = [digitChar n]"
  by simp

lemma digitChar_values:
  "digitChar 0 = CHR ''0''" "digitChar 1 = CHR ''1''" "digitChar 2 = CHR ''2''"
  "digitChar 3 = CHR ''3''" "digitChar 4 = CHR ''4''" "digitChar 5 = CHR ''5''"
  "digitChar 6 = CHR ''6''" "digitChar 7 = CHR ''7''" "digitChar 8 = CHR ''8''"
  "digitChar 9 = CHR ''9''"
  by code_simp+

lemma digitChar_Suc:
  "digitChar (Suc 0) = CHR ''1''" "digitChar (Suc (Suc 0)) = CHR ''2''"
  "digitChar (Suc (Suc (Suc 0))) = CHR ''3''" "digitChar (Suc (Suc (Suc (Suc 0)))) = CHR ''4''"
  "digitChar (Suc (Suc (Suc (Suc (Suc 0))))) = CHR ''5''"
  "digitChar (Suc (Suc (Suc (Suc (Suc (Suc 0)))))) = CHR ''6''"
  "digitChar (Suc (Suc (Suc (Suc (Suc (Suc (Suc 0))))))) = CHR ''7''"
  "digitChar (Suc (Suc (Suc (Suc (Suc (Suc (Suc (Suc 0)))))))) = CHR ''8''"
  "digitChar (Suc (Suc (Suc (Suc (Suc (Suc (Suc (Suc (Suc 0))))))))) = CHR ''9''"
  using digitChar_values by (simp_all add: eval_nat_numeral)

lemma objGet_objSet: "objGet (objSet k v kvs) k' = (if k' = k then Some v else objGet kvs k')"
  by (induction kvs) auto

lemma set_objSet: "set (objSet k v kvs) \<subseteq> insert (k, v) (set kvs)"
  by (induction kvs) (auto split: if_splits)

lemma keyset_objSet: "fst ` set (objSet k v kvs) = insert k (fst ` set kvs)"
  by (induction kvs) (force split: if_splits)+

lemma set_insertKey: "set (insertKey k v kvs) = insert (k, v) (set kvs)"
  by (induction kvs) (auto split: option.splits if_splits)

lemma objGet_insertKey:
  "k \<notin> fst ` set kvs \<Longrightarrow> objGet (insertKey k v kvs) k' = (if k' = k then Some v else objGet kvs k')"
  by (induction kvs) (auto split: option.splits if_splits)

lemma set_assignPrimitive: "set (assignPrimitive k v kvs) \<subseteq> insert (k, v) (set kvs)"
  using set_objSet[of k v kvs] by (auto simp: assignPrimitive_def set_insertKey)

lemma keyset_assignPrimitive:
  "fst ` set (assignPrimitive k v kvs) =
     (if k = ''__proto__'' \<and> k \<notin> fst ` set kvs then fst ` set kvs else insert k (fst ` set kvs))"
  by (simp add: assignPrimitive_def keyset_objSet set_insertKey)

lemma objGet_assignPrimitive:
  "objGet (assignPrimitive k v kvs) k' =
     (if k' = k \<and> (k \<noteq> ''__proto__'' \<or> k \<in> fst ` set kvs) then Some v else objGet kvs k')"
  by (auto simp: assignPrimitive_def objGet_objSet objGet_insertKey)

lemma integerKey_names:
  "integerKey ''a'' = None" "integerKey ''b'' = None" "integerKey ''c'' = None"
  "integerKey ''name'' = None" "integerKey ''age'' = None" "integerKey ''Authorization'' = None"
  by (simp_all add: integerKey_def arrayIndex_def isDigit_def)

lemma integerKey_numerals: "integerKey ''10'' = Some 10" "integerKey ''2'' = Some 2"
  by (simp_all add: integerKey_def arrayIndex_def isDigit_def digitChar_values digitChar_Suc)

section \<open>Properties of the CSV decoder\<close>

lemma splitOn_nonempty: "splitOn sep s \<noteq> []"
  by (induction s) (auto split: list.splits)

lemma splitOn_no_sep: "p \<in> set (splitOn sep s) \<Longrightarrow> sep \<notin> set p"
  by (induction s arbitrary: p) (auto split: list.splits if_splits)

lemma set_trim: "set (trim s) \<subseteq> set s"
  unfolding trim_def by (metis set_dropWhileD set_rev subsetI)

lemma csvCells_clean: "c \<in> set (csvCells line) \<Longrightarrow> CHR '','' \<notin> set c \<and> CHR 0x22 \<notin> set c"
  using set_trim splitOn_no_sep by (fastforce simp: csvCells_def removeQuotes_def)

lemma fold_assign_keys:
  "fst ` set (fold (\<lambda>(h, i) row. assignPrimitive h (f i) row) ps row)
     = (fst ` set ps - {''__proto__''}) \<union> fst ` set row"
proof (induction ps arbitrary: row)
  case Nil
  then show ?case by simp
next
  case (Cons p ps)
  obtain h i where p: "p = (h, i)" by (cases p)
  show ?case using Cons.IH[of "assignPrimitive h (f i) row"] p
    by (auto simp: keyset_assignPrimitive split: if_splits)
qed

lemma fold_assign_last:
  "k \<in> fst ` set ps \<Longrightarrow> k \<noteq> ''__proto__'' \<Longrightarrow> (\<And>i. (k, i) \<in> set ps \<Longrightarrow> f i = v) \<Longrightarrow>
   objGet (fold (\<lambda>(h, i) row. assignPrimitive h (f i) row) ps row) k = Some v"
proof (induction ps rule: rev_induct)
  case Nil
  then show ?case by simp
next
  case (snoc p ps)
  obtain h i where p: "p = (h, i)" by (cases p)
  show ?case
  proof (cases "h = k")
    case True
    then show ?thesis using snoc.prems(2) snoc.prems(3)[of i] p by (simp add: objGet_assignPrimitive)
  next
    case False
    then have "k \<in> fst ` set ps" using snoc.prems(1) p by auto
    then have "objGet (fold (\<lambda>(h, i) row. assignPrimitive h (f i) row) ps row) k = Some v"
      using snoc.IH snoc.prems(2,3) by simp
    then show ?thesis using False p by (simp add: objGet_assignPrimitive)
  qed
qed

lemma fold_assign_vals:
  "(k, v) \<in> set (fold (\<lambda>(h, i) row. assignPrimitive h (f i) row) ps row) \<Longrightarrow>
   (k, v) \<in> set row \<or> (\<exists>i. (k, i) \<in> set ps \<and> v = f i)"
proof (induction ps arbitrary: row)
  case Nil
  then show ?case by simp
next
  case (Cons p ps)
  obtain h i where p: "p = (h, i)" by (cases p)
  from Cons.prems p
  have "(k, v) \<in> set (fold (\<lambda>(h, i) row. assignPrimitive h (f i) row) ps (assignPrimitive h (f i) row))"
    by simp
  from Cons.IH[OF this] show ?case using set_assignPrimitive[of h "f i" row] p by auto
qed

text \<open>
  The keys of a row are the header cells other than \<^verbatim>\<open>__proto__\<close>, and under every header
  cell other than \<^verbatim>\<open>__proto__\<close> for which the row has no cell it holds the empty string.
\<close>

lemma csvRow_keys: "fst ` set (csvRow hs vs) = set hs - {''__proto__''}"
proof -
  have "fst ` set (zip hs [0 ..< length hs]) = set hs"
    by (metis length_upt diff_zero map_fst_zip set_map)
  then show ?thesis by (simp add: csvRow_def fold_assign_keys)
qed

lemma csvLines_nonempty: "csvLines t \<noteq> []"
  by (simp add: csvLines_def splitOn_nonempty)

lemma parseCsvResponse_eq:
  "parseCsvResponse t = map (\<lambda>line. JObj (csvRow (csvCells (hd (csvLines t))) (csvCells line))) (tl (csvLines t))"
  by (simp add: parseCsvResponse_def Let_def csvLines_nonempty)

lemma drop_zip_upt_mem:
  "(k, j) \<in> set (drop i (zip hs [0 ..< length hs])) \<longleftrightarrow> i \<le> j \<and> j < length hs \<and> hs ! j = k"
proof -
  have "drop i (zip hs [0 ..< length hs]) = zip (drop i hs) [i ..< length hs]"
    by (simp add: drop_zip)
  moreover have "(k, j) \<in> set (zip (drop i hs) [i ..< length hs]) \<longleftrightarrow> i \<le> j \<and> j < length hs \<and> hs ! j = k"
  proof
    assume "(k, j) \<in> set (zip (drop i hs) [i ..< length hs])"
    then obtain m where m: "m < length hs - i" "drop i hs ! m = k" "[i ..< length hs] ! m = j"
      by (auto simp: set_zip)
    then have "j = i + m" by simp
    with m show "i \<le> j \<and> j < length hs \<and> hs ! j = k" by auto
  next
    assume a: "i \<le> j \<and> j < length hs \<and> hs ! j = k"
    then have "j - i < length hs - i" "drop i hs ! (j - i) = k" "[i ..< length hs] ! (j - i) = j"
      by auto
    then show "(k, j) \<in> set (zip (drop i hs) [i ..< length hs])"
      unfolding set_zip by (intro CollectI exI[of _ "j - i"]) simp
  qed
  ultimately show ?thesis by simp
qed

lemma csvRow_fill:
  assumes "i < length hs" and "length vs \<le> i" and "hs ! i \<noteq> ''__proto__''"
  shows "objGet (csvRow hs vs) (hs ! i) = Some (JStr [])"
proof -
  let ?ps = "zip hs [0 ..< length hs]"
  let ?step = "\<lambda>(header, index) row. assignPrimitive header (JStr (csvCell vs index)) row"
  have "objGet (fold ?step (drop i ?ps) (fold ?step (take i ?ps) [])) (hs ! i) = Some (JStr [])"
  proof (rule fold_assign_last)
    show "hs ! i \<in> fst ` set (drop i ?ps)"
      using assms(1) drop_zip_upt_mem[of "hs ! i" i i hs] by force
  next
    show "hs ! i \<noteq> ''__proto__''" by (rule assms(3))
  next
    fix j assume "(hs ! i, j) \<in> set (drop i ?ps)"
    then have "length vs \<le> j" using assms(2) by (simp add: drop_zip_upt_mem)
    then show "JStr (csvCell vs j) = JStr []" by (simp add: csvCell_def)
  qed
  moreover have "fold ?step ?ps [] = fold ?step (take i ?ps @ drop i ?ps) []"
    by (simp only: append_take_drop_id)
  ultimately show ?thesis by (simp add: csvRow_def del: append_take_drop_id)
qed

text \<open>The definitions that the decoding of a concrete body unfolds.\<close>

lemmas csv_defs =
  parseCsvResponse_def csvLines_def csvCells_def csvRow_def csvCell_def trim_def isSpace_def
  removeQuotes_def assignPrimitive_def integerKey_names Let_def

lemma csv_example_value:
  "parseCsvResponse csvExample =
     [JObj [(''name'', JStr ''Alice''), (''age'', JStr ''30'')],
      JObj [(''name'', JStr ''Bob''), (''age'', JStr ''25'')]]"
  by (simp add: csv_defs csvExample_def)

lemma csv_short_value:
  "parseCsvResponse csvShortExample = [JObj [(''a'', JStr ''1''), (''b'', JStr []), (''c'', JStr [])]]"
  by (simp add: csv_defs csvShortExample_def)

lemma csv_numerals_value:
  "parseCsvResponse csvNumeralsExample =
     [JObj [(''2'', JStr ''z''), (''10'', JStr ''y''), (''b'', JStr ''x'')]]"
  by (simp add: csv_defs csvNumeralsExample_def integerKey_numerals)

text \<open>
  Claim C6. The body \<^verbatim>\<open>name,age\nAlice,30\nBob,25\<close> decodes to the two records
  \<^verbatim>\<open>{name:"Alice",age:"30"}\<close> and \<^verbatim>\<open>{name:"Bob",age:"25"}\<close>, in that order, and the first
  line is the header row. The rest of the claim does not hold of every CSV input: the
  body \<^verbatim>\<open>a,__proto__\n1\<close> has the header cells \<^verbatim>\<open>a\<close> and \<^verbatim>\<open>__proto__\<close> and a row with the one
  cell \<^verbatim>\<open>1\<close>, and its record is \<^verbatim>\<open>{a:"1"}\<close>: the row is shorter than the header, and the
  header \<^verbatim>\<open>__proto__\<close> of its missing cell is no key of the record and reads as no empty
  string. The body \<^verbatim>\<open>__proto__,a\n1,2\<close> gives \<^verbatim>\<open>{a:"2"}\<close>.
\<close>

theorem csv_proto_header_not_stored:
  "parseCsvResponse csvExample =
     [JObj [(''name'', JStr ''Alice''), (''age'', JStr ''30'')],
      JObj [(''name'', JStr ''Bob''), (''age'', JStr ''25'')]]
   \<and> csvCells (hd (csvLines csvProtoExample)) = [''a'', ''__proto__'']
   \<and> csvCells (csvLines csvProtoExample ! 1) = [''1'']
   \<and> parseCsvResponse csvProtoExample = [JObj [(''a'', JStr ''1'')]]
   \<and> objGet [(''a'', JStr ''1'')] ''__proto__'' = None
   \<and> parseCsvResponse csvProtoFirstExample = [JObj [(''a'', JStr ''2'')]]"
  by (simp add: csv_defs csvExample_def csvProtoExample_def csvProtoFirstExample_def)

text \<open>
  Claim C10. For every CSV input, no key and no cell value of a decoded record contains a
  comma or a double quote: a line is split at every comma and every double quote is
  deleted. So the quoted cell \<^verbatim>\<open>"x,y"\<close> is split into the two cells \<^verbatim>\<open>x\<close> and \<^verbatim>\<open>y\<close>.
\<close>

theorem csv_cells_split_and_unquoted:
  "(\<forall>r \<in> set (parseCsvResponse t). \<exists>row. r = JObj row
       \<and> (\<forall>(k, v) \<in> set row. \<exists>s. v = JStr s \<and> CHR '','' \<notin> set s \<and> CHR 0x22 \<notin> set s
             \<and> CHR '','' \<notin> set k \<and> CHR 0x22 \<notin> set k))
   \<and> parseCsvResponse csvQuotedExample = [JObj [(''a'', JStr ''x''), (''b'', JStr ''y'')]]"
proof (intro conjI ballI)
  show "parseCsvResponse csvQuotedExample = [JObj [(''a'', JStr ''x''), (''b'', JStr ''y'')]]"
    by (simp add: csv_defs csvQuotedExample_def)
  fix r assume "r \<in> set (parseCsvResponse t)"
  then obtain line where r: "r = JObj (csvRow (csvCells (hd (csvLines t))) (csvCells line))"
    by (auto simp: parseCsvResponse_eq)
  let ?hs = "csvCells (hd (csvLines t))" and ?vs = "csvCells line"
  have "\<exists>s. v = JStr s \<and> CHR '','' \<notin> set s \<and> CHR 0x22 \<notin> set s
             \<and> CHR '','' \<notin> set k \<and> CHR 0x22 \<notin> set k" if kv: "(k, v) \<in> set (csvRow ?hs ?vs)" for k v
  proof -
    from kv have "k \<in> fst ` set (csvRow ?hs ?vs)" by force
    then have "k \<in> set ?hs" by (simp add: csvRow_keys)
    then have key: "CHR '','' \<notin> set k \<and> CHR 0x22 \<notin> set k" by (rule csvCells_clean)
    from kv obtain i where v: "v = JStr (csvCell ?vs i)"
      unfolding csvRow_def by (auto dest: fold_assign_vals)
    have "CHR '','' \<notin> set (csvCell ?vs i) \<and> CHR 0x22 \<notin> set (csvCell ?vs i)"
      using csvCells_clean[of "?vs ! i" line] by (simp add: csvCell_def)
    with key v show ?thesis by blast
  qed
  with r show "\<exists>row. r = JObj row
       \<and> (\<forall>(k, v) \<in> set row. \<exists>s. v = JStr s \<and> CHR '','' \<notin> set s \<and> CHR 0x22 \<notin> set s
             \<and> CHR '','' \<notin> set k \<and> CHR 0x22 \<notin> set k)"
    by blast
qed

theorem csv_cells_split_and_unquoted_witness:
  "JObj [(''a'', JStr ''x''), (''b'', JStr ''y'')] \<in> set (parseCsvResponse csvQuotedExample)
   \<and> (\<exists>row. JObj [(''a'', JStr ''x''), (''b'', JStr ''y'')] = JObj row
       \<and> (\<forall>(k, v) \<in> set row. \<exists>s. v = JStr s \<and> CHR '','' \<notin> set s \<and> CHR 0x22 \<notin> set s
             \<and> CHR '','' \<notin> set k \<and> CHR 0x22 \<notin> set k))"
proof -
  have mem: "JObj [(''a'', JStr ''x''), (''b'', JStr ''y'')] \<in> set (parseCsvResponse csvQuotedExample)"
    by (simp add: csv_defs csvQuotedExample_def)
  with csv_cells_split_and_unquoted[of csvQuotedExample] show ?thesis by blast
qed

section \<open>Properties of the formatter\<close>





section \<open>Properties of the XML decoder\<close>









section \<open>Properties of the extraction loop\<close>

text \<open>
  A property of the state that holds at the start and is kept by every turn of the loop
  holds in the state in which the run ends.
\<close>

lemma fetchLoop_invariant:
  assumes "I st"
    and "\<And>st. I st \<Longrightarrow> loopCondition opts st \<Longrightarrow> I (stepState (pageStep P opts hs st))"
  shows "I (stateOf (fetchLoop P opts hs st))"
  using assms
proof (induction P opts hs st rule: fetchLoop.induct)
  case (1 P opts hs st)
  show ?case
  proof (cases "loopCondition opts st")
    case False
    then show ?thesis using "1.prems"(1) by simp
  next
    case True
    note s = "1.prems"(2)[OF "1.prems"(1) True]
    show ?thesis
    proof (cases "pageStep P opts hs st")
      case (Next st')
      have "I st'" using s Next by simp
      from "1.IH"[OF True Next this "1.prems"(2)] show ?thesis using Next True by simp
    next
      case (Thrown e st')
      then show ?thesis using s True by simp
    qed
  qed
qed






lemma pageTexts_snoc:
  "pageTexts (made @ [(rq, out)]) = pageTexts made @ (case pageText out of None \<Rightarrow> [] | Some t \<Rightarrow> [t])"
  by (simp add: pageTexts_def map_filter_def split: option.splits)

lemma aggregate_snoc:
  "aggregate P opts (texts @ [t]) =
     pushParsed (aggregate P opts texts) (parseApiResponse P t (responseFormat opts) (dataMapping opts))"
  by (simp add: aggregate_def)

lemma lastStatus_snoc:
  "lastStatus (made @ [(rq, out)]) = (case responseStatus out of None \<Rightarrow> lastStatus made | Some s \<Rightarrow> Some s)"
  by (simp add: lastStatus_def map_filter_def Let_def split: option.splits)


lemma step_pages_bound:
  assumes "int (pagesProcessed st) \<le> max 0 \<lceil>maxPagesOf (pagination opts)\<rceil>" and "loopCondition opts st"
  shows "int (pagesProcessed (stepState (pageStep P opts hs st))) \<le> max 0 \<lceil>maxPagesOf (pagination opts)\<rceil>"
proof -
  from assms(2) have "int (pagesProcessed st) < \<lceil>maxPagesOf (pagination opts)\<rceil>"
    by (simp add: loopCondition_def less_ceiling_iff)
  then show ?thesis
    by (auto simp: pageStep_def catchPage_def pageDone_def Let_def
             split: fetchOutcome.splits if_splits sum.splits option.splits)
qed

lemma step_log:
  assumes "pagesProcessed st = length (pageTexts (calls st)) \<and> allData st = aggregate P opts (pageTexts (calls st))"
  shows "pagesProcessed (stepState (pageStep P opts hs st)) = length (pageTexts (calls (stepState (pageStep P opts hs st))))
         \<and> allData (stepState (pageStep P opts hs st)) = aggregate P opts (pageTexts (calls (stepState (pageStep P opts hs st))))"
  using assms
  by (auto simp: pageStep_def catchPage_def pageDone_def Let_def pageTexts_snoc aggregate_snoc
           split: fetchOutcome.splits if_splits sum.splits option.splits)

lemma step_status:
  assumes "finalStatusCode st = (case lastStatus (calls st) of None \<Rightarrow> 200 | Some s \<Rightarrow> s)"
  shows "finalStatusCode (stepState (pageStep P opts hs st)) =
           (case lastStatus (calls (stepState (pageStep P opts hs st))) of None \<Rightarrow> 200 | Some s \<Rightarrow> s)"
  using assms
  by (auto simp: pageStep_def catchPage_def pageDone_def Let_def lastStatus_snoc
           split: fetchOutcome.splits if_splits sum.splits option.splits)

text \<open>The definitions that a concrete run unfolds.\<close>

lemmas example_defs =
  optionsOf_def exampleRequest_def noPagination_def pagesUpTo_def offsetsUpTo_def
  zeroMaxPagesRequest_def pagedRequest_def offsetRequest_def bearerRequest_def
  bearerWithoutToken_def examplePlatform_def alwaysPage_def always429_def pageThenTimeout_def
  pageThen500_def csvPage_def tooManyRequests_def serverError_def

lemmas loop_defs =
  runLoop_def initialState_def loopCondition_def maxPagesOf_def pageStep_def pageDone_def
  catchPage_def fetchRequestOf_def requestHeaders_def authHeaders_def credential_def
  sendsBody_def ok_def pushParsed_def parseApiResponse_def Let_def

lemma step_calls:
  "calls (stepState (pageStep P opts hs st)) =
     calls st @ [(fetchRequestOf opts hs st, fetch P (length (calls st)) (fetchRequestOf opts hs st))]"
  by (auto simp: pageStep_def catchPage_def pageDone_def Let_def
           split: fetchOutcome.splits if_splits sum.splits option.splits)

lemma step_issued_below_limit:
  assumes "pagesProcessed st = length (pageTexts (calls st))"
    and "\<forall>j < length (calls st). of_nat (length (pageTexts (take j (calls st)))) < maxPagesOf (pagination opts)"
    and "loopCondition opts st"
  shows "\<forall>j < length (calls (stepState (pageStep P opts hs st))).
           of_nat (length (pageTexts (take j (calls (stepState (pageStep P opts hs st))))))
             < maxPagesOf (pagination opts)"
proof (intro allI impI)
  fix j assume j: "j < length (calls (stepState (pageStep P opts hs st)))"
  show "of_nat (length (pageTexts (take j (calls (stepState (pageStep P opts hs st))))))
             < maxPagesOf (pagination opts)"
  proof (cases "j < length (calls st)")
    case True
    then show ?thesis using assms(2) by (simp add: step_calls)
  next
    case False
    then have "j = length (calls st)" using j by (simp add: step_calls)
    then show ?thesis using assms(1,3) by (simp add: step_calls loopCondition_def)
  qed
qed


lemma runLoop_issued_below_limit:
  "\<forall>j < length (calls (stateOf (runLoop P opts))).
      of_nat (length (pageTexts (take j (calls (stateOf (runLoop P opts)))))) < maxPagesOf (pagination opts)"
proof -
  let ?I = "\<lambda>st. (pagesProcessed st = length (pageTexts (calls st))
                  \<and> allData st = aggregate P opts (pageTexts (calls st)))
                \<and> (\<forall>j < length (calls st). of_nat (length (pageTexts (take j (calls st)))) < maxPagesOf (pagination opts))"
  have "?I (stateOf (fetchLoop P opts (requestHeaders P opts) (initialState opts)))"
  proof (rule fetchLoop_invariant[where I = ?I])
    show "?I (initialState opts)"
      by (simp add: initialState_def pageTexts_def aggregate_def)
  next
    fix st assume i: "?I st" and c: "loopCondition opts st"
    from i have a: "pagesProcessed st = length (pageTexts (calls st))
                  \<and> allData st = aggregate P opts (pageTexts (calls st))" by blast
    from i have b: "\<forall>j < length (calls st). of_nat (length (pageTexts (take j (calls st)))) < maxPagesOf (pagination opts)"
      by blast
    from a have a1: "pagesProcessed st = length (pageTexts (calls st))" by blast
    show "?I (stepState (pageStep P opts (requestHeaders P opts) st))"
      using step_log[OF a] step_issued_below_limit[OF a1 b c] by blast
  qed
  then show ?thesis by (simp add: runLoop_def)
qed

lemma runLoop_pages_bound:
  "int (pagesProcessed (stateOf (runLoop P opts))) \<le> max 0 \<lceil>maxPagesOf (pagination opts)\<rceil>"
  unfolding runLoop_def
  by (rule fetchLoop_invariant[where I = "\<lambda>st. int (pagesProcessed st) \<le> max 0 \<lceil>maxPagesOf (pagination opts)\<rceil>"])
     (simp_all add: initialState_def step_pages_bound)

lemma performApiExtraction_Inr:
  "performApiExtraction P opts = Inr r \<Longrightarrow>
     \<exists>st text. runLoop P opts = Inr st \<and> r = buildResult opts st text"
  by (auto simp: performApiExtraction_def split: sum.splits option.splits)

lemma format_not_json: "format \<noteq> FJson \<Longrightarrow> \<exists>text. formatExtractedData P data format = Some text"
  by (simp add: formatExtractedData_def)

lemma performApiExtraction_not_json:
  assumes "runLoop P opts = Inr st" and "responseFormat opts \<noteq> FJson"
  shows "\<exists>text. performApiExtraction P opts = Inr (buildResult opts st text)"
  using assms format_not_json[OF assms(2), of P "allData st"]
  by (auto simp: performApiExtraction_def)

lemmas url_defs =
  getNextPageUrl_def exampleNewURL_def exampleUrlToString_def parseInt_def isSpace_def isDigit_def
  signed_def hexDigit_def intToString_def natToString_digit digitChar_values digitChar_Suc

lemma two_pages_run:
  "\<exists>st. runLoop (examplePlatform alwaysPage) (optionsOf (pagedRequest 2)) = Inr st
        \<and> pagesProcessed st = 2 \<and> length (calls st) = 2"
  by (simp add: example_defs loop_defs url_defs del: natToString.simps)

lemma three_pages_run:
  "\<exists>st. runLoop (examplePlatform alwaysPage) (optionsOf (pagedRequest (5 / 2))) = Inr st
        \<and> pagesProcessed st = 3 \<and> length (calls st) = 3"
  by (simp add: example_defs loop_defs url_defs del: natToString.simps)

text \<open>
  Claim C8, as stated: the number of pages fetched never exceeds \<^verbatim>\<open>pagination.maxPages\<close>,
  which defaults to 10 when unset. It fails for \<^verbatim>\<open>maxPages: 0\<close>: the request is answered
  with one page fetched.
\<close>

theorem pages_within_unset_limit_counterexample:
  "maxPages (pagination (optionsOf zeroMaxPagesRequest)) = Some 0
   \<and> pagesProcessed (stateOf (runLoop (examplePlatform alwaysPage) (optionsOf zeroMaxPagesRequest))) = 1
   \<and> replyPages (POST (examplePlatform alwaysPage) zeroMaxPagesRequest) = Some 1"
proof -
  let ?P = "examplePlatform alwaysPage" and ?opts = "optionsOf zeroMaxPagesRequest"
  have run: "\<exists>st. runLoop ?P ?opts = Inr st \<and> pagesProcessed st = 1"
    by (simp add: example_defs loop_defs)
  then obtain st where st: "runLoop ?P ?opts = Inr st" "pagesProcessed st = 1" by blast
  have "responseFormat ?opts \<noteq> FJson" by (simp add: example_defs)
  from performApiExtraction_not_json[OF st(1) this] obtain formatted
    where r: "performApiExtraction ?P ?opts = Inr (buildResult ?opts st formatted)" by blast
  have url: "requestUrl zeroMaxPagesRequest = Some ''http://api.test/items?limit=5''"
    "url ?opts = ''http://api.test/items?limit=5''"
    by (simp_all add: example_defs)
  have new: "newURL ?P ''http://api.test/items?limit=5'' \<noteq> None
            \<and> protocol (the (newURL ?P ''http://api.test/items?limit=5'')) = ''http:''"
    by (simp add: examplePlatform_def exampleNewURL_def)
  have "POST ?P zeroMaxPagesRequest = Json200 (buildResult ?opts st formatted)"
    using new r url by (auto simp: POST_def Let_def trim_def isSpace_def)
  then have "replyPages (POST ?P zeroMaxPagesRequest) = Some 1"
    using st(2) by (simp add: buildResult_def)
  moreover have "maxPages (pagination ?opts) = Some 0" by (simp add: example_defs)
  ultimately show ?thesis using st by simp
qed

text \<open>
  Claim C8, amended: the limit of a run is \<^verbatim>\<open>pagination.maxPages\<close> when that is set and
  not 0, and 10 otherwise; it is any number, whole or not. In every run the number of
  pages fetched is at most the limit rounded up to a whole number, or 0 for a negative
  limit; the same holds for the \<^verbatim>\<open>pagesProcessed\<close> of a returned result; and every request
  is issued while the number of pages fetched so far is below the limit. With the limit
  \<open>5 / 2\<close> three pages are fetched, so the rounding cannot be left out.
\<close>

theorem pages_within_limit:
  "int (pagesProcessed (stateOf (runLoop P opts))) \<le> max 0 \<lceil>maxPagesOf (pagination opts)\<rceil>
   \<and> (\<forall>r. performApiExtraction P opts = Inr r \<longrightarrow>
         int (metadataPagesProcessed (metadata r)) \<le> max 0 \<lceil>maxPagesOf (pagination opts)\<rceil>)
   \<and> (\<forall>j < length (calls (stateOf (runLoop P opts))).
         of_nat (length (pageTexts (take j (calls (stateOf (runLoop P opts))))))
           < maxPagesOf (pagination opts))"
proof (intro conjI allI impI)
  show "int (pagesProcessed (stateOf (runLoop P opts))) \<le> max 0 \<lceil>maxPagesOf (pagination opts)\<rceil>"
    by (rule runLoop_pages_bound)
next
  fix r assume "performApiExtraction P opts = Inr r"
  then obtain st formatted where "runLoop P opts = Inr st" "r = buildResult opts st formatted"
    using performApiExtraction_Inr by blast
  then show "int (metadataPagesProcessed (metadata r)) \<le> max 0 \<lceil>maxPagesOf (pagination opts)\<rceil>"
    using runLoop_pages_bound[of P opts] by (simp add: buildResult_def)
next
  fix j assume "j < length (calls (stateOf (runLoop P opts)))"
  then show "of_nat (length (pageTexts (take j (calls (stateOf (runLoop P opts))))))
           < maxPagesOf (pagination opts)"
    using runLoop_issued_below_limit by blast
qed

theorem pages_within_limit_witness:
  "\<exists>r. performApiExtraction (examplePlatform alwaysPage) (optionsOf (pagedRequest (5 / 2))) = Inr r
       \<and> metadataPagesProcessed (metadata r) = 3
       \<and> int (metadataPagesProcessed (metadata r))
            \<le> max 0 \<lceil>maxPagesOf (pagination (optionsOf (pagedRequest (5 / 2))))\<rceil>"
proof -
  let ?P = "examplePlatform alwaysPage" and ?opts = "optionsOf (pagedRequest (5 / 2))"
  from three_pages_run obtain st where st: "runLoop ?P ?opts = Inr st" "pagesProcessed st = 3" by blast
  have "responseFormat ?opts \<noteq> FJson" by (simp add: example_defs)
  from performApiExtraction_not_json[OF st(1) this] obtain formatted
    where r: "performApiExtraction ?P ?opts = Inr (buildResult ?opts st formatted)" by blast
  have "metadataPagesProcessed (metadata (buildResult ?opts st formatted)) = 3"
    using st(2) by (simp add: buildResult_def)
  with r pages_within_limit[of ?P ?opts] show ?thesis by blast
qed

lemma runLoop_status:
  "finalStatusCode (stateOf (runLoop P opts)) =
     (case lastStatus (calls (stateOf (runLoop P opts))) of None \<Rightarrow> 200 | Some s \<Rightarrow> s)"
  unfolding runLoop_def
  by (rule fetchLoop_invariant[where I = "\<lambda>st. finalStatusCode st =
                (case lastStatus (calls st) of None \<Rightarrow> 200 | Some s \<Rightarrow> s)"])
     (simp_all add: initialState_def lastStatus_def map_filter_def step_status[unfolded lastStatus_def map_filter_def])

lemma page_then_500_run:
  "\<exists>st. runLoop (examplePlatform pageThen500) (optionsOf (pagedRequest 3)) = Inr st
        \<and> pagesProcessed st = 1 \<and> finalStatusCode st = 500
        \<and> allData st = parseCsvResponse csvExample
        \<and> lastStatus (calls st) = Some 500"
  by (simp add: example_defs loop_defs url_defs lastStatus_def map_filter_def del: natToString.simps)

lemma example_post:
  assumes "performApiExtraction (examplePlatform f) (optionsOf rq) = Inr r"
    and "requestUrl rq = Some ''http://api.test/items?limit=5''"
  shows "POST (examplePlatform f) rq = Json200 r"
proof -
  have "newURL (examplePlatform f) ''http://api.test/items?limit=5'' \<noteq> None
        \<and> protocol (the (newURL (examplePlatform f) ''http://api.test/items?limit=5'')) = ''http:''"
    by (simp add: examplePlatform_def exampleNewURL_def)
  moreover have "url (optionsOf rq) = ''http://api.test/items?limit=5''"
    using assms(2) by (simp add: optionsOf_def)
  ultimately show ?thesis
    using assms by (auto simp: POST_def Let_def trim_def isSpace_def)
qed

text \<open>
  Claim C9. The status code of a run that returns is the status of the last response
  received among its calls (200 when there was none), and so is the \<^verbatim>\<open>statusCode\<close> of
  the returned result. A response of a failed later page counts: when the server gives
  one page and then answers 500, the request succeeds with status code 500, one page and
  the two records of that page.
\<close>

theorem status_of_last_response:
  "(\<forall>st. runLoop P opts = Inr st \<longrightarrow>
        finalStatusCode st = (case lastStatus (calls st) of None \<Rightarrow> 200 | Some s \<Rightarrow> s))
   \<and> (\<forall>r. performApiExtraction P opts = Inr r \<longrightarrow>
        statusCode (metadata r) =
          (case lastStatus (calls (stateOf (runLoop P opts))) of None \<Rightarrow> 200 | Some s \<Rightarrow> s))
   \<and> replyStatus (POST (examplePlatform pageThen500) (pagedRequest 3)) = Some 500
   \<and> replyPages (POST (examplePlatform pageThen500) (pagedRequest 3)) = Some 1
   \<and> replyRecords (POST (examplePlatform pageThen500) (pagedRequest 3)) = Some 2"
proof -
  have a: "\<forall>st. runLoop P opts = Inr st \<longrightarrow>
        finalStatusCode st = (case lastStatus (calls st) of None \<Rightarrow> 200 | Some s \<Rightarrow> s)"
    using runLoop_status[of P opts] by auto
  have b: "\<forall>r. performApiExtraction P opts = Inr r \<longrightarrow>
        statusCode (metadata r) =
          (case lastStatus (calls (stateOf (runLoop P opts))) of None \<Rightarrow> 200 | Some s \<Rightarrow> s)"
  proof (intro allI impI)
    fix r assume "performApiExtraction P opts = Inr r"
    then obtain st formatted where "runLoop P opts = Inr st" "r = buildResult opts st formatted"
      using performApiExtraction_Inr by blast
    then show "statusCode (metadata r) =
          (case lastStatus (calls (stateOf (runLoop P opts))) of None \<Rightarrow> 200 | Some s \<Rightarrow> s)"
      using runLoop_status[of P opts] by (simp add: buildResult_def)
  qed
  let ?P = "examplePlatform pageThen500" and ?opts = "optionsOf (pagedRequest 3)"
  from page_then_500_run obtain st where st: "runLoop ?P ?opts = Inr st" "pagesProcessed st = 1"
    "finalStatusCode st = 500" "allData st = parseCsvResponse csvExample" by blast
  have "responseFormat ?opts \<noteq> FJson" by (simp add: example_defs)
  from performApiExtraction_not_json[OF st(1) this] obtain formatted
    where r: "performApiExtraction ?P ?opts = Inr (buildResult ?opts st formatted)" by blast
  have "requestUrl (pagedRequest 3) = Some ''http://api.test/items?limit=5''"
    by (simp add: example_defs)
  from example_post[OF r this] have p: "POST ?P (pagedRequest 3) = Json200 (buildResult ?opts st formatted)" .
  have n: "length (parseCsvResponse csvExample) = 2"
    by (simp add: csv_example_value)
  have c: "replyStatus (POST ?P (pagedRequest 3)) = Some 500
         \<and> replyPages (POST ?P (pagedRequest 3)) = Some 1
         \<and> replyRecords (POST ?P (pagedRequest 3)) = Some 2"
    using st n by (simp add: p buildResult_def)
  from a b c show ?thesis by blast
qed

theorem status_of_last_response_witness:
  "\<exists>r. performApiExtraction (examplePlatform pageThen500) (optionsOf (pagedRequest 3)) = Inr r
       \<and> lastStatus (calls (stateOf (runLoop (examplePlatform pageThen500) (optionsOf (pagedRequest 3))))) = Some 500
       \<and> statusCode (metadata r) = 500
       \<and> recordCount (apiInfo r) = 2"
proof -
  let ?P = "examplePlatform pageThen500" and ?opts = "optionsOf (pagedRequest 3)"
  from page_then_500_run obtain st where run: "runLoop ?P ?opts = Inr st"
    and data: "allData st = parseCsvResponse csvExample"
    and last: "lastStatus (calls st) = Some 500" by blast
  have "responseFormat ?opts \<noteq> FJson" by (simp add: example_defs)
  from performApiExtraction_not_json[OF run this] obtain formatted
    where r: "performApiExtraction ?P ?opts = Inr (buildResult ?opts st formatted)" by blast
  have l: "lastStatus (calls (stateOf (runLoop ?P ?opts))) = Some 500"
    by (simp only: run stateOf.simps last)
  have n: "recordCount (apiInfo (buildResult ?opts st formatted)) = 2"
    by (simp add: buildResult_def data csv_example_value)
  note b = status_of_last_response[of ?P ?opts, THEN conjunct2, THEN conjunct1, rule_format, OF r]
  have c: "statusCode (metadata (buildResult ?opts st formatted)) = 500"
    by (simp only: b l option.case)
  show ?thesis
    by (rule exI[of _ "buildResult ?opts st formatted"]) (simp only: r l n c simp_thms)
qed

lemma natToString_step: "10 \<le> n \<Longrightarrow> natToString n = natToString (n div 10) @ [digitChar (n mod 10)]"
  by simp

lemma rate_limit_run:
  assumes "0 < maxPagesOf (pagination opts)"
    and "fetch P 0 (fetchRequestOf opts (requestHeaders P opts) (initialState opts)) = Response r0"
    and "fetch P 1 (fetchRequestOf opts (requestHeaders P opts) (initialState opts)) = Response r1"
    and "fetch P 2 (fetchRequestOf opts (requestHeaders P opts) (initialState opts)) = Response r2"
    and "status r0 = 429" and "status r1 = 429" and "status r2 = 429"
  shows "runLoop P opts =
           Inl (requestFailed r2,
                (initialState opts)
                  \<lparr>retryCount := 3, rateLimitHit := True,
                   finalStatusCode := 429, finalResponseHeaders := responseHeaders r2,
                   calls := [(fetchRequestOf opts (requestHeaders P opts) (initialState opts), Response r0),
                             (fetchRequestOf opts (requestHeaders P opts) (initialState opts), Response r1),
                             (fetchRequestOf opts (requestHeaders P opts) (initialState opts), Response r2)],
                   delays := [2000, 2000, 2000]\<rparr>)"
  using assms
  by (simp add: runLoop_def initialState_def loopCondition_def pageStep_def catchPage_def ok_def
        Let_def fetchRequestOf_def numeral_2_eq_2 numeral_3_eq_3)


lemma example_post_failed:
  assumes "performApiExtraction (examplePlatform f) (optionsOf rq) = Inl details"
    and "requestUrl rq = Some ''http://api.test/items?limit=5''"
  shows "POST (examplePlatform f) rq =
           Json500 ''API extraction failed'' details
             \<lparr>metadataUrl = ''http://api.test/items?limit=5'', metadataMethod = method' (optionsOf rq),
              metadataResponseFormat = responseFormat (optionsOf rq),
              statusCode = 0, responseSize = 0, metadataPagesProcessed = 0\<rparr>"
proof -
  have "newURL (examplePlatform f) ''http://api.test/items?limit=5'' \<noteq> None
        \<and> protocol (the (newURL (examplePlatform f) ''http://api.test/items?limit=5'')) = ''http:''"
    by (simp add: examplePlatform_def exampleNewURL_def)
  moreover have "url (optionsOf rq) = ''http://api.test/items?limit=5''"
    using assms(2) by (simp add: optionsOf_def)
  ultimately show ?thesis
    using assms by (auto simp: POST_def Let_def trim_def isSpace_def)
qed

lemma always429_facts:
  "0 < maxPagesOf (pagination (optionsOf exampleRequest))"
  "fetch (examplePlatform always429) n rq = Response tooManyRequests"
  "status tooManyRequests = 429"
  "requestFailed tooManyRequests = ''API request failed: 429 Too Many Requests''"
  by (simp_all add: example_defs maxPagesOf_def requestFailed_def natToString_step natToString_digit
        digitChar_values del: natToString.simps)

text \<open>
  Claim C1, as stated: after three consecutive 429 responses on page 1 the operation
  fails reporting \<^verbatim>\<open>retryCount == 2\<close> and \<^verbatim>\<open>rateLimited == true\<close>. Against a server that
  always answers 429 the run fails with the counter at 3, and the reply of the handler
  holds the error, its message and the metadata only.
\<close>

theorem rate_limit_retry_count_counterexample:
  "retryCount (stateOf (runLoop (examplePlatform always429) (optionsOf exampleRequest))) = 3
   \<and> retryCount (stateOf (runLoop (examplePlatform always429) (optionsOf exampleRequest))) \<noteq> 2
   \<and> rateLimitHit (stateOf (runLoop (examplePlatform always429) (optionsOf exampleRequest)))
   \<and> POST (examplePlatform always429) exampleRequest =
         Json500 ''API extraction failed'' ''API request failed: 429 Too Many Requests''
           \<lparr>metadataUrl = ''http://api.test/items?limit=5'', metadataMethod = MGet,
            metadataResponseFormat = FCsv, statusCode = 0, responseSize = 0,
            metadataPagesProcessed = 0\<rparr>"
proof -
  let ?P = "examplePlatform always429" and ?opts = "optionsOf exampleRequest"
  note run = rate_limit_run[of ?opts ?P tooManyRequests tooManyRequests tooManyRequests,
      OF always429_facts(1) always429_facts(2) always429_facts(2) always429_facts(2)
         always429_facts(3) always429_facts(3) always429_facts(3)]
  have a: "retryCount (stateOf (runLoop ?P ?opts)) = 3" by (simp add: run)
  have b: "rateLimitHit (stateOf (runLoop ?P ?opts))" by (simp add: run)
  have "performApiExtraction ?P ?opts = Inl ''API request failed: 429 Too Many Requests''"
    by (simp add: performApiExtraction_def run always429_facts(4))
  from example_post_failed[OF this]
  have c: "POST ?P exampleRequest =
         Json500 ''API extraction failed'' ''API request failed: 429 Too Many Requests''
           \<lparr>metadataUrl = ''http://api.test/items?limit=5'', metadataMethod = MGet,
            metadataResponseFormat = FCsv, statusCode = 0, responseSize = 0,
            metadataPagesProcessed = 0\<rparr>"
    by (simp add: exampleRequest_def optionsOf_def)
  from a b c show ?thesis by simp
qed

text \<open>
  Claim C1, amended: if the limit of pages is positive and the first three calls, all
  for the first request, are answered with status 429, then the run marks the rate limit
  as hit, waits 2000 ms after each of the three responses, sends the same request three
  times in all, and then fails on the first page with no page and no record; at that
  point the retry counter is 3, one for every 429 response. The operation fails with the
  message of the third response.
\<close>

theorem rate_limit_exhaustion:
  assumes "0 < maxPagesOf (pagination opts)"
    and "fetch P 0 (fetchRequestOf opts (requestHeaders P opts) (initialState opts)) = Response r0"
    and "fetch P 1 (fetchRequestOf opts (requestHeaders P opts) (initialState opts)) = Response r1"
    and "fetch P 2 (fetchRequestOf opts (requestHeaders P opts) (initialState opts)) = Response r2"
    and "status r0 = 429" and "status r1 = 429" and "status r2 = 429"
  shows "\<exists>st. runLoop P opts = Inl (requestFailed r2, st)
           \<and> rateLimitHit st \<and> retryCount st = 3
           \<and> delays st = [2000, 2000, 2000]
           \<and> map fst (calls st) =
                replicate 3 (fetchRequestOf opts (requestHeaders P opts) (initialState opts))
           \<and> map snd (calls st) = [Response r0, Response r1, Response r2]
           \<and> pagesProcessed st = 0 \<and> allData st = []
           \<and> performApiExtraction P opts = Inl (requestFailed r2)"
proof -
  note run = rate_limit_run[OF assms]
  show ?thesis
    by (simp add: run performApiExtraction_def initialState_def numeral_3_eq_3)
qed

theorem rate_limit_exhaustion_witness:
  "\<exists>st. runLoop (examplePlatform always429) (optionsOf exampleRequest) =
           Inl (requestFailed tooManyRequests, st)
        \<and> rateLimitHit st \<and> retryCount st = 3
        \<and> delays st = [2000, 2000, 2000]
        \<and> map fst (calls st) =
             replicate 3 (fetchRequestOf (optionsOf exampleRequest)
                            (requestHeaders (examplePlatform always429) (optionsOf exampleRequest))
                            (initialState (optionsOf exampleRequest)))
        \<and> map snd (calls st) = [Response tooManyRequests, Response tooManyRequests, Response tooManyRequests]
        \<and> pagesProcessed st = 0 \<and> allData st = []
        \<and> performApiExtraction (examplePlatform always429) (optionsOf exampleRequest)
             = Inl (requestFailed tooManyRequests)"
  by (rule rate_limit_exhaustion[OF always429_facts(1) always429_facts(2) always429_facts(2)
        always429_facts(2) always429_facts(3) always429_facts(3) always429_facts(3)])

section \<open>Properties of the authenticator\<close>

lemma authHeaders_missing:
  "missingCredential auth \<Longrightarrow> authHeaders P auth hs = hs"
  by (auto simp: missingCredential_def authHeaders_def split: authType.splits)

lemma authHeaders_none: "authHeaders P noAuthentication hs = hs"
  by (simp add: authHeaders_def noAuthentication_def)

lemma requestHeaders_missing:
  "missingCredential (authentication opts) \<Longrightarrow>
     requestHeaders P opts = requestHeaders P (opts\<lparr>authentication := noAuthentication\<rparr>)"
  by (simp add: requestHeaders_def authHeaders_missing authHeaders_none)

lemma pageDone_authentication:
  "pageDone P (opts\<lparr>authentication := a\<rparr>) r t st = pageDone P opts r t st"
  by (simp add: pageDone_def Let_def)

lemma pageStep_authentication:
  "pageStep P (opts\<lparr>authentication := a\<rparr>) hs st = pageStep P opts hs st"
  by (simp add: pageStep_def pageDone_authentication fetchRequestOf_def Let_def
           split: fetchOutcome.splits sum.splits)

lemma loopCondition_authentication:
  "loopCondition (opts\<lparr>authentication := a\<rparr>) st = loopCondition opts st"
  by (simp add: loopCondition_def)

lemma fetchLoop_authentication:
  "fetchLoop P (opts\<lparr>authentication := a\<rparr>) hs st = fetchLoop P opts hs st"
proof (induction P opts hs st rule: fetchLoop.induct)
  case (1 P opts hs st)
  show ?case
  proof (cases "loopCondition opts st")
    case False
    then show ?thesis by (simp add: loopCondition_authentication)
  next
    case True
    show ?thesis
    proof (cases "pageStep P opts hs st")
      case (Next st')
      have "fetchLoop P (opts\<lparr>authentication := a\<rparr>) hs st = fetchLoop P (opts\<lparr>authentication := a\<rparr>) hs st'"
        using True Next
        by (subst fetchLoop.simps) (simp add: loopCondition_authentication pageStep_authentication)
      also have "\<dots> = fetchLoop P opts hs st'" by (rule "1.IH"[OF True Next])
      also have "\<dots> = fetchLoop P opts hs st"
        using True Next by (subst (2) fetchLoop.simps) simp
      finally show ?thesis .
    next
      case (Thrown e st')
      then show ?thesis
        using True by (simp add: loopCondition_authentication pageStep_authentication)
    qed
  qed
qed

lemma fetchLoop_calls_prefix:
  "\<exists>rest. calls (stateOf (fetchLoop P opts hs st)) = calls st @ rest"
  by (rule fetchLoop_invariant[where I = "\<lambda>st'. \<exists>rest. calls st' = calls st @ rest"])
     (auto simp: step_calls)

lemma fetchLoop_first_call:
  assumes "loopCondition opts st"
  shows "\<exists>rest. calls (stateOf (fetchLoop P opts hs st)) =
           calls st @ (fetchRequestOf opts hs st, fetch P (length (calls st)) (fetchRequestOf opts hs st)) # rest"
proof (cases "pageStep P opts hs st")
  case (Next st')
  have c: "calls st' = calls st @ [(fetchRequestOf opts hs st, fetch P (length (calls st)) (fetchRequestOf opts hs st))]"
    using step_calls[of P opts hs st] Next by simp
  from fetchLoop_calls_prefix[of P opts hs st'] obtain rest
    where "calls (stateOf (fetchLoop P opts hs st')) = calls st' @ rest" by blast
  moreover have "fetchLoop P opts hs st = fetchLoop P opts hs st'"
    using assms Next by (subst fetchLoop.simps) simp
  ultimately show ?thesis using c by simp
next
  case (Thrown e st')
  have c: "calls st' = calls st @ [(fetchRequestOf opts hs st, fetch P (length (calls st)) (fetchRequestOf opts hs st))]"
    using step_calls[of P opts hs st] Thrown by simp
  have "fetchLoop P opts hs st = Inl (e, st')"
    using assms Thrown by (subst fetchLoop.simps) simp
  then show ?thesis using c by simp
qed

lemma POST_rejects_url_only: "isJson400 (POST P rq) = urlRejected P rq"
proof -
  have u: "url (optionsOf rq) = orElse (requestUrl rq) []" by (simp add: optionsOf_def)
  show ?thesis
  proof (cases "\<not> truthyStr (requestUrl rq) \<or> length (trim (orElse (requestUrl rq) [])) = 0")
    case True
    then show ?thesis by (auto simp add: POST_def urlRejected_def Let_def u)
  next
    case blank: False
    show ?thesis
    proof (cases "newURL P (orElse (requestUrl rq) [])")
      case None
      then show ?thesis using blank by (simp add: POST_def urlRejected_def Let_def u)
    next
      case (Some validUrl)
      show ?thesis
      proof (cases "protocol validUrl \<noteq> ''http:'' \<and> protocol validUrl \<noteq> ''https:''")
        case True
        then show ?thesis using blank Some by (simp add: POST_def urlRejected_def Let_def u)
      next
        case False
        then show ?thesis using blank Some
          by (cases "performApiExtraction P (optionsOf rq)")
             (simp_all add: POST_def urlRejected_def Let_def u)
      qed
    qed
  qed
qed

lemma bearer_run:
  "\<exists>st. runLoop (examplePlatform alwaysPage) (optionsOf bearerRequest) = Inr st
        \<and> pagesProcessed st = 1
        \<and> map fst (calls st) =
             [\<lparr>fetchUrl = ''http://api.test/items?limit=5'', fetchMethod = MGet,
               fetchHeaders = [], fetchBody = None, fetchTimeout = 30000\<rparr>]"
  by (simp add: example_defs loop_defs missingCredential_def)

lemma bearer_missing: "missingCredential (authentication (optionsOf bearerRequest))"
  by (simp add: example_defs missingCredential_def credential_def)

text \<open>
  Claim C3, as stated: a request whose authentication mode lacks a required credential
  is answered with a configuration error before any network call. A bearer request
  without a token is not: it is answered with a result of one page, after one call of
  \<^verbatim>\<open>fetch\<close> that carries no \<^verbatim>\<open>Authorization\<close> header.
\<close>

theorem missing_token_counterexample:
  "missingCredential (authentication (optionsOf bearerRequest))
   \<and> \<not> isJson400 (POST (examplePlatform alwaysPage) bearerRequest)
   \<and> replyPages (POST (examplePlatform alwaysPage) bearerRequest) = Some 1
   \<and> map fst (calls (stateOf (runLoop (examplePlatform alwaysPage) (optionsOf bearerRequest)))) =
        [\<lparr>fetchUrl = ''http://api.test/items?limit=5'', fetchMethod = MGet,
          fetchHeaders = [], fetchBody = None, fetchTimeout = 30000\<rparr>]"
proof -
  let ?P = "examplePlatform alwaysPage" and ?opts = "optionsOf bearerRequest"
  from bearer_run obtain st where h: "runLoop ?P ?opts = Inr st
        \<and> pagesProcessed st = 1
        \<and> map fst (calls st) =
             [\<lparr>fetchUrl = ''http://api.test/items?limit=5'', fetchMethod = MGet,
               fetchHeaders = [], fetchBody = None, fetchTimeout = 30000\<rparr>]" ..
  note run = h[THEN conjunct1] and pages = h[THEN conjunct2, THEN conjunct1]
    and sent = h[THEN conjunct2, THEN conjunct2]
  have "responseFormat ?opts \<noteq> FJson" by (simp add: example_defs)
  from performApiExtraction_not_json[OF run this] obtain formatted
    where r: "performApiExtraction ?P ?opts = Inr (buildResult ?opts st formatted)" by blast
  have "requestUrl bearerRequest = Some ''http://api.test/items?limit=5''"
    by (simp add: example_defs)
  from example_post[OF r this] have p: "POST ?P bearerRequest = Json200 (buildResult ?opts st formatted)" .
  have a: "\<not> isJson400 (POST ?P bearerRequest)" by (simp only: p isJson400.simps) simp
  have b: "replyPages (POST ?P bearerRequest) = Some 1"
    by (simp add: p buildResult_def pages)
  have c: "map fst (calls (stateOf (runLoop ?P ?opts))) =
        [\<lparr>fetchUrl = ''http://api.test/items?limit=5'', fetchMethod = MGet,
          fetchHeaders = [], fetchBody = None, fetchTimeout = 30000\<rparr>]"
    by (simp only: run stateOf.simps sent)
  from bearer_missing a b c show ?thesis by (intro conjI)
qed

text \<open>
  Claim C3, amended: for every request whose authentication mode lacks a required
  credential, the authenticator adds no header: the request headers and the whole run of
  the fetch loop are those of the same request without authentication. The handler
  rejects a request before the network call on account of its URL only, and when the
  limit of pages is positive the first call of \<^verbatim>\<open>fetch\<close> is made, with these headers.
\<close>

theorem missing_credential_request_is_sent:
  assumes "missingCredential (authentication (optionsOf rq))"
  shows "requestHeaders P (optionsOf rq)
           = requestHeaders P ((optionsOf rq)\<lparr>authentication := noAuthentication\<rparr>)
         \<and> runLoop P (optionsOf rq)
           = runLoop P ((optionsOf rq)\<lparr>authentication := noAuthentication\<rparr>)
         \<and> isJson400 (POST P rq) = urlRejected P rq
         \<and> (0 < maxPagesOf (pagination (optionsOf rq)) \<longrightarrow>
              (\<exists>rest. calls (stateOf (runLoop P (optionsOf rq))) =
                 (fetchRequestOf (optionsOf rq) (requestHeaders P (optionsOf rq)) (initialState (optionsOf rq)),
                  fetch P 0 (fetchRequestOf (optionsOf rq) (requestHeaders P (optionsOf rq))
                               (initialState (optionsOf rq)))) # rest))"
proof (intro conjI impI)
  show h: "requestHeaders P (optionsOf rq)
           = requestHeaders P ((optionsOf rq)\<lparr>authentication := noAuthentication\<rparr>)"
    using assms by (rule requestHeaders_missing)
  have i: "initialState ((optionsOf rq)\<lparr>authentication := noAuthentication\<rparr>) = initialState (optionsOf rq)"
    by (simp add: initialState_def)
  show "runLoop P (optionsOf rq)
           = runLoop P ((optionsOf rq)\<lparr>authentication := noAuthentication\<rparr>)"
    unfolding runLoop_def by (simp only: h[symmetric] i fetchLoop_authentication)
  show "isJson400 (POST P rq) = urlRejected P rq" by (rule POST_rejects_url_only)
next
  assume "0 < maxPagesOf (pagination (optionsOf rq))"
  then have "loopCondition (optionsOf rq) (initialState (optionsOf rq))"
    by (simp add: loopCondition_def initialState_def)
  from fetchLoop_first_call[OF this, of P "requestHeaders P (optionsOf rq)"]
  show "\<exists>rest. calls (stateOf (runLoop P (optionsOf rq))) =
                 (fetchRequestOf (optionsOf rq) (requestHeaders P (optionsOf rq)) (initialState (optionsOf rq)),
                  fetch P 0 (fetchRequestOf (optionsOf rq) (requestHeaders P (optionsOf rq))
                               (initialState (optionsOf rq)))) # rest"
    by (simp add: runLoop_def initialState_def)
qed

theorem missing_credential_request_is_sent_witness:
  "missingCredential (authentication (optionsOf bearerRequest))
   \<and> runLoop (examplePlatform alwaysPage) (optionsOf bearerRequest)
        = runLoop (examplePlatform alwaysPage) ((optionsOf bearerRequest)\<lparr>authentication := noAuthentication\<rparr>)
   \<and> isJson400 (POST (examplePlatform alwaysPage) bearerRequest) = urlRejected (examplePlatform alwaysPage) bearerRequest
   \<and> 0 < maxPagesOf (pagination (optionsOf bearerRequest))
   \<and> (\<exists>rest. calls (stateOf (runLoop (examplePlatform alwaysPage) (optionsOf bearerRequest))) =
         (fetchRequestOf (optionsOf bearerRequest)
            (requestHeaders (examplePlatform alwaysPage) (optionsOf bearerRequest))
            (initialState (optionsOf bearerRequest)),
          fetch (examplePlatform alwaysPage) 0
            (fetchRequestOf (optionsOf bearerRequest)
               (requestHeaders (examplePlatform alwaysPage) (optionsOf bearerRequest))
               (initialState (optionsOf bearerRequest)))) # rest)"
proof -
  have m: "0 < maxPagesOf (pagination (optionsOf bearerRequest))"
    by (simp add: example_defs maxPagesOf_def)
  note t = missing_credential_request_is_sent[OF bearer_missing, of "examplePlatform alwaysPage"]
  from t have a: "runLoop (examplePlatform alwaysPage) (optionsOf bearerRequest)
        = runLoop (examplePlatform alwaysPage) ((optionsOf bearerRequest)\<lparr>authentication := noAuthentication\<rparr>)"
    by (rule conjunct2[THEN conjunct1])
  from t have b: "isJson400 (POST (examplePlatform alwaysPage) bearerRequest) = urlRejected (examplePlatform alwaysPage) bearerRequest"
    by (rule conjunct2[THEN conjunct2, THEN conjunct1])
  note c = t[THEN conjunct2, THEN conjunct2, THEN conjunct2, rule_format, OF m]
  from bearer_missing a b m c show ?thesis by (intro conjI)
qed

section \<open>Failures of a page\<close>



















end
